theory Spec2Isabelle
  imports Complex_Main "HOL-Library.Log_Nat"
begin

section \<open>Numbers and strings of the host language\<close>

text \<open>
  The page computes on JavaScript numbers, which are IEEE binary64 numbers. Two
  embeddings are given. The first takes the numbers as exact reals: every comparison,
  \<open>Math.min\<close>, \<open>Math.max\<close>, \<open>Math.abs\<close> and \<open>Math.round\<close> is the mathematical
  one, and \<open>+\<close>, \<open>-\<close>, \<open>*\<close>, \<open>/\<close> do not round; the \<open>NaN\<close> that
  \<open>Number.parseFloat\<close> returns for a field that holds no number is \<open>None\<close> of
  \<open>real option\<close>. It carries the statements whose content does not depend on rounding:
  the validation, the order of the two bounds of the range, the bounds of the percent
  and of the karat, the monotonicity of the lookup, and scenario 1. The second
  embedding, further below, keeps the rounding to binary64 and the infinities; the
  statements whose outcome rounding or overflow can change are made there.

  Strings are byte lists; the two non-ASCII characters that the code writes into its
  output are given by their UTF-8 bytes. The string functions of the host language
  (\<open>trim\<close>, \<open>toUpperCase\<close>, the regular expression) are modelled on ASCII text,
  which is all that the labels of the table and the placeholder \<open>?\<close> contain.
\<close>

definition en_dash :: string where
  \<comment> \<open>U+2013, the dash of the range label\<close>
  "en_dash = [CHR 0xE2, CHR 0x80, CHR 0x93]"

definition superscript_three :: string where
  \<comment> \<open>U+00B3, the exponent of the unit g/cm3\<close>
  "superscript_three = [CHR 0xC2, CHR 0xB3]"

definition Math_round :: "real \<Rightarrow> real" where
  \<comment> \<open>\<open>Math.round\<close>: the nearest integer, a tie going up\<close>
  "Math_round x = of_int \<lfloor>x + 1 / 2\<rfloor>"

definition digitChar :: "nat \<Rightarrow> char" where
  "digitChar d = ''0123456789'' ! d"

fun natToString :: "nat \<Rightarrow> string" where
  "natToString n =
     (if n < 10 then [digitChar n] else natToString (n div 10) @ [digitChar (n mod 10)])"

declare natToString.simps [simp del]

definition padZeros :: "nat \<Rightarrow> string \<Rightarrow> string" where
  "padZeros w s = replicate (w - length s) (CHR ''0'') @ s"

definition toFixed :: "real \<Rightarrow> nat \<Rightarrow> string" where
  \<comment> \<open>\<open>x.toFixed(f)\<close> for \<open>\<bar>x\<bar> < 10^21\<close>: the integer \<open>n\<close> nearest to \<open>\<bar>x\<bar> * 10^f\<close>
      (the larger one at a tie), printed with \<open>f\<close> digits after the point\<close>
  "toFixed x f =
     (let n = nat \<lfloor>\<bar>x\<bar> * 10 ^ f + 1 / 2\<rfloor>;
          a = natToString (n div 10 ^ f);
          b = padZeros f (natToString (n mod 10 ^ f))
      in (if x < 0 then ''-'' else '''') @ a @ (if f = 0 then '''' else ''.'' @ b))"

definition numberToString :: "real \<Rightarrow> string" where
  \<comment> \<open>the string a template literal makes of a number, for the numbers
      \<open>computeFinalRange\<close> prints: multiples of one half, as \<open>12\<close> or \<open>12.5\<close>\<close>
  "numberToString x =
     (let n = nat \<lfloor>\<bar>x\<bar>\<rfloor>
      in (if x < 0 then ''-'' else '''') @ natToString n @
         (if \<bar>x\<bar> = of_nat n then '''' else ''.5''))"

section \<open>Types of the page\<close>

record ConversionRow =
  karat :: string
  percent :: real
  minDensity :: real
  maxDensity :: real

record BadgeInfo =
  badge_label :: string
  badge_color :: string
  badge_note :: string

datatype DeltaLabel = OK | WASPADA

record CalcResult =
  density :: string
  goldPercent :: string
  karatFromPercent :: string
  karatFromDensity :: string
  karatRangeDensity :: string
  finalRange :: string
  badgeLabel :: string
  badgeColor :: string
  conclusionText :: string
  deltaKarat :: string
  deltaLabel :: DeltaLabel
  deltaNote :: string

text \<open>The objects that \<open>computeFinalRange\<close> and \<open>getDeltaIndicator\<close> return.\<close>

record FinalRange =
  minK :: real
  maxK :: real
  range_label :: string

record DeltaIndicator =
  delta_text :: string
  delta_label :: DeltaLabel
  delta_note :: string

section \<open>Helper functions\<close>

definition clamp :: "real \<Rightarrow> real \<Rightarrow> real \<Rightarrow> real" where
  "clamp n lo hi = min hi (max lo n)"

subsection \<open>parseKaratLabel\<close>

definition isSpace :: "char \<Rightarrow> bool" where
  "isSpace c = (c \<in> set [CHR '' '', CHR 0x09, CHR 0x0A, CHR 0x0B, CHR 0x0C, CHR 0x0D])"

definition trim :: "string \<Rightarrow> string" where
  "trim s = rev (dropWhile isSpace (rev (dropWhile isSpace s)))"

definition toUpperCase :: "string \<Rightarrow> string" where
  "toUpperCase s =
     map (\<lambda>c. case map_of (zip ''abcdefghijklmnopqrstuvwxyz'' ''ABCDEFGHIJKLMNOPQRSTUVWXYZ'') c of
               None \<Rightarrow> c | Some u \<Rightarrow> u) s"

definition isDigit :: "char \<Rightarrow> bool" where
  "isDigit c = (c \<in> set ''0123456789'')"

definition digitValue :: "char \<Rightarrow> nat" where
  "digitValue c = (case map_of (zip ''0123456789'' [0, 1, 2, 3, 4, 5, 6, 7, 8, 9]) c of
                     None \<Rightarrow> 0 | Some d \<Rightarrow> d)"

definition digitsValue :: "string \<Rightarrow> nat" where
  "digitsValue ds = foldl (\<lambda>a c. 10 * a + digitValue c) 0 ds"

definition matchKarat :: "string \<Rightarrow> string option" where
  \<comment> \<open>the regular expression \<open>^(\d+(\.\d+)?)K$\<close>; the result is group 1\<close>
  "matchKarat s =
     (if s \<noteq> [] \<and> last s = CHR ''K'' then
        (let body = butlast s;
             whole = takeWhile isDigit body;
             rest = dropWhile isDigit body
         in if whole = [] then None
            else if rest = [] then Some body
            else if hd rest = CHR ''.'' \<and> tl rest \<noteq> [] \<and> list_all isDigit (tl rest)
                 then Some body
            else None)
      else None)"

definition Number_of :: "string \<Rightarrow> real" where
  \<comment> \<open>\<open>Number(s)\<close> for the strings group 1 can hold: digits, or digits, a point, digits\<close>
  "Number_of s =
     (let whole = takeWhile isDigit s;
          frac = drop (length whole + 1) s
      in of_nat (digitsValue whole) + of_nat (digitsValue frac) / 10 ^ length frac)"

definition parseKaratLabel :: "string \<Rightarrow> real option" where
  "parseKaratLabel karatStr =
     (case matchKarat (toUpperCase (trim karatStr)) of
        None \<Rightarrow> None
      | Some m \<Rightarrow> Some (Number_of m))"

subsection \<open>getBadgeForRange\<close>

definition getBadgeForRange :: "real \<Rightarrow> real \<Rightarrow> BadgeInfo" where
  "getBadgeForRange minK' maxK' =
     (let avg = (minK' + maxK') / 2 in
      if avg \<ge> 22 then
        \<lparr>badge_label = ''Sangat Tinggi'', badge_color = ''bg-emerald-600 text-white'',
         badge_note = ''Mendekati emas murni (umumnya 22K+).''\<rparr>
      else if avg \<ge> 18 then
        \<lparr>badge_label = ''Tinggi'', badge_color = ''bg-green-600 text-white'',
         badge_note = ''Kadar tinggi (umumnya 18K'' @ en_dash @ ''21K).''\<rparr>
      else if avg \<ge> 14 then
        \<lparr>badge_label = ''Menengah'', badge_color = ''bg-amber-500 text-white'',
         badge_note = ''Kadar menengah (umumnya 14K'' @ en_dash @ ''17K).''\<rparr>
      else if avg \<ge> 10 then
        \<lparr>badge_label = ''Rendah'', badge_color = ''bg-orange-600 text-white'',
         badge_note = ''Kadar rendah (umumnya 10K'' @ en_dash @ ''13K).''\<rparr>
      else
        \<lparr>badge_label = ''Sangat Rendah'', badge_color = ''bg-red-600 text-white'',
         badge_note = ''Kadar sangat rendah (di bawah 10K).''\<rparr>)"

subsection \<open>computeFinalRange\<close>

definition roundHalf :: "real \<Rightarrow> real" where
  "roundHalf x = Math_round (x * 2) / 2"

definition computeFinalRange :: "real \<Rightarrow> real option \<Rightarrow> FinalRange" where
  "computeFinalRange karatFromPercent' karatFromDensity' =
     (let pMin = clamp (karatFromPercent' - 1) 0 24;
          pMax = clamp (karatFromPercent' + 1) 0 24;
          (minK0, maxK0) =
            (case karatFromDensity' of
               None \<Rightarrow> (pMin, pMax)
             | Some kd \<Rightarrow>
                 (let dMin = clamp (kd - 1) 0 24;
                      dMax = clamp (kd + 1) 0 24
                  in (min pMin dMin, max pMax dMax)));
          minK1 = roundHalf minK0;
          maxK1 = roundHalf maxK0;
          (minK2, maxK2) = (if minK1 > maxK1 then (maxK1, minK1) else (minK1, maxK1))
      in \<lparr>minK = minK2, maxK = maxK2,
          range_label = numberToString minK2 @ ''K'' @ en_dash @ numberToString maxK2 @ ''K''\<rparr>)"

subsection \<open>getDeltaIndicator\<close>

definition getDeltaIndicator :: "real \<Rightarrow> real option \<Rightarrow> DeltaIndicator" where
  "getDeltaIndicator karatFromPercent' karatFromDensity' =
     (case karatFromDensity' of
        None \<Rightarrow>
          \<lparr>delta_text = '''', delta_label = OK,
           delta_note = ''Tidak ada pembanding densitas (di luar range tabel).''\<rparr>
      | Some kd \<Rightarrow>
          (let delta = \<bar>karatFromPercent' - kd\<bar>;
               deltaRounded = Math_round (delta * 10) / 10
           in if deltaRounded \<ge> 2.0 then
                \<lparr>delta_text = toFixed deltaRounded 1 @ ''K'', delta_label = WASPADA,
                 delta_note = ''Selisih besar. Bisa dipengaruhi batu permata, solder, rongga/berlubang, gelembung air, atau teknik penimbangan.''\<rparr>
              else
                \<lparr>delta_text = toFixed deltaRounded 1 @ ''K'', delta_label = OK,
                 delta_note = ''Selisih kecil. Hasil cenderung konsisten untuk screening cepat.''\<rparr>))"

section \<open>The calculator\<close>

definition conversionTable :: "ConversionRow list" where
  "conversionTable =
     [\<lparr>karat = ''24K'', percent = 99.9, minDensity = 19.20, maxDensity = 19.32\<rparr>,
      \<lparr>karat = ''23K'', percent = 95.8, minDensity = 18.60, maxDensity = 19.20\<rparr>,
      \<lparr>karat = ''22K'', percent = 91.7, minDensity = 17.70, maxDensity = 18.60\<rparr>,
      \<lparr>karat = ''21K'', percent = 87.5, minDensity = 16.90, maxDensity = 17.70\<rparr>,
      \<lparr>karat = ''20K'', percent = 83.3, minDensity = 16.20, maxDensity = 16.90\<rparr>,
      \<lparr>karat = ''19K'', percent = 79.2, minDensity = 15.60, maxDensity = 16.20\<rparr>,
      \<lparr>karat = ''18K'', percent = 75.0, minDensity = 15.20, maxDensity = 15.60\<rparr>,
      \<lparr>karat = ''17K'', percent = 70.8, minDensity = 14.70, maxDensity = 15.20\<rparr>,
      \<lparr>karat = ''16K'', percent = 66.7, minDensity = 14.20, maxDensity = 14.70\<rparr>,
      \<lparr>karat = ''15K'', percent = 62.5, minDensity = 13.70, maxDensity = 14.20\<rparr>,
      \<lparr>karat = ''14K'', percent = 58.3, minDensity = 13.00, maxDensity = 13.70\<rparr>,
      \<lparr>karat = ''13K'', percent = 54.2, minDensity = 12.60, maxDensity = 13.00\<rparr>,
      \<lparr>karat = ''12K'', percent = 50.0, minDensity = 12.00, maxDensity = 12.60\<rparr>,
      \<lparr>karat = ''11K'', percent = 45.8, minDensity = 11.60, maxDensity = 12.00\<rparr>,
      \<lparr>karat = ''10K'', percent = 41.7, minDensity = 11.30, maxDensity = 11.60\<rparr>,
      \<lparr>karat = ''9K'', percent = 37.5, minDensity = 10.90, maxDensity = 11.30\<rparr>,
      \<lparr>karat = ''8K'', percent = 33.3, minDensity = 10.50, maxDensity = 10.90\<rparr>,
      \<lparr>karat = ''7K'', percent = 29.2, minDensity = 10.10, maxDensity = 10.50\<rparr>,
      \<lparr>karat = ''6K'', percent = 25.0, minDensity = 9.70, maxDensity = 10.10\<rparr>]"

datatype error = InvalidInputError | InvalidVolumeError

text \<open>
  The stages of \<open>calculatePurity\<close>, one definition for each local constant of the source,
  so that a statement can speak of the volume or the density of a run.
\<close>

definition calc_waterDensity :: "real option \<Rightarrow> real" where
  "calc_waterDensity temp =
     (case temp of
        None \<Rightarrow> 1.0
      | Some t \<Rightarrow> if t < 10 then 0.9997 else if t > 30 then 0.9957 else 1.0)"

definition calc_volume :: "real \<Rightarrow> real \<Rightarrow> real option \<Rightarrow> real" where
  "calc_volume air water temp = (air - water) / calc_waterDensity temp"

definition calc_density :: "real \<Rightarrow> real \<Rightarrow> real option \<Rightarrow> real" where
  "calc_density air water temp = air / calc_volume air water temp"

definition calc_goldPercent :: "real \<Rightarrow> real" where
  "calc_goldPercent d =
     (let minD = 9.7; maxD = 19.32
      in clamp (((d - minD) / (maxD - minD)) * 100) 0 100)"

definition calc_karatFromPercentNum :: "real \<Rightarrow> real" where
  "calc_karatFromPercentNum d = (calc_goldPercent d * 24) / 100"

definition inBand :: "real \<Rightarrow> ConversionRow \<Rightarrow> bool" where
  "inBand d row = (d \<ge> minDensity row \<and> d \<le> maxDensity row)"

fun scanTable :: "real \<Rightarrow> ConversionRow list \<Rightarrow> string \<times> string" where
  "scanTable d [] = (''?'', '''')"
| "scanTable d (row # rows) =
     (if inBand d row then
        (karat row,
         toFixed (minDensity row) 2 @ '' - '' @ toFixed (maxDensity row) 2 @ '' g/cm'' @
           superscript_three)
      else scanTable d rows)"

definition calculatePurity :: "real option \<Rightarrow> real option \<Rightarrow> real option \<Rightarrow> error + CalcResult" where
  "calculatePurity airWeight waterWeight waterTemp =
     (case (airWeight, waterWeight) of
        (Some air, Some water) \<Rightarrow>
          if air \<le> 0 \<or> water \<le> 0 then Inl InvalidInputError
          else if air \<le> water then Inl InvalidInputError
          else
            (let volume = calc_volume air water waterTemp in
             if volume \<le> 0 then Inl InvalidVolumeError
             else
               (let d = calc_density air water waterTemp;
                    gp = calc_goldPercent d;
                    karatFromPercentNum = calc_karatFromPercentNum d;
                    (kfd, krd) = scanTable d conversionTable;
                    karatFromDensityNum = parseKaratLabel kfd;
                    final = computeFinalRange karatFromPercentNum karatFromDensityNum;
                    badge = getBadgeForRange (minK final) (maxK final);
                    delta = getDeltaIndicator karatFromPercentNum karatFromDensityNum
                in Inr \<lparr>density = toFixed d 2,
                        goldPercent = toFixed gp 1,
                        karatFromPercent = toFixed karatFromPercentNum 1 @ ''K'',
                        karatFromDensity = kfd,
                        karatRangeDensity = krd,
                        finalRange = range_label final,
                        badgeLabel = badge_label badge,
                        badgeColor = badge_color badge,
                        conclusionText =
                          ''Kesimpulan: perkiraan kadar emas berada di kisaran '' @
                          range_label final @ '' ('' @ badge_label badge @ ''). '' @
                          badge_note badge,
                        deltaKarat = delta_text delta,
                        deltaLabel = delta_label delta,
                        deltaNote = delta_note delta\<rparr>))
      | _ \<Rightarrow> Inl InvalidInputError)"

section \<open>Auxiliary definitions for the statements\<close>

text \<open>
  The range before rounding: the padded and clamped interval of the percent estimate,
  widened by that of the density estimate when there is one.
\<close>

definition mergedMin :: "real \<Rightarrow> real option \<Rightarrow> real" where
  "mergedMin kp kd =
     (case kd of
        None \<Rightarrow> clamp (kp - 1) 0 24
      | Some k \<Rightarrow> min (clamp (kp - 1) 0 24) (clamp (k - 1) 0 24))"

definition mergedMax :: "real \<Rightarrow> real option \<Rightarrow> real" where
  "mergedMax kp kd =
     (case kd of
        None \<Rightarrow> clamp (kp + 1) 0 24
      | Some k \<Rightarrow> max (clamp (kp + 1) 0 24) (clamp (k + 1) 0 24))"

text \<open>
  The Range Reconciler as the specification words it, steps 1 to 3: bounds clamped to
  \<open>[0,24]\<close>, the union of the two padded intervals, each bound rounded to the nearest
  half by rounding \<open>value * 2\<close> half up and halving.
\<close>

definition spec_clampKarat :: "real \<Rightarrow> real" where
  "spec_clampKarat x = (if x < 0 then 0 else if 24 < x then 24 else x)"

definition spec_roundHalfUp :: "real \<Rightarrow> int" where
  \<comment> \<open>the nearest integer, the upper one when two are equally near\<close>
  "spec_roundHalfUp y = (if y - of_int \<lfloor>y\<rfloor> < 1 / 2 then \<lfloor>y\<rfloor> else \<lfloor>y\<rfloor> + 1)"

definition spec_nearestHalf :: "real \<Rightarrow> real" where
  "spec_nearestHalf x = of_int (spec_roundHalfUp (x * 2)) / 2"

definition spec_reconcile :: "real \<Rightarrow> real option \<Rightarrow> real \<times> real" where
  "spec_reconcile kp kd =
     (let pLo = spec_clampKarat (kp - 1);
          pHi = spec_clampKarat (kp + 1)
      in case kd of
           None \<Rightarrow> (spec_nearestHalf pLo, spec_nearestHalf pHi)
         | Some k \<Rightarrow>
             (spec_nearestHalf (min pLo (spec_clampKarat (k - 1))),
              spec_nearestHalf (max pHi (spec_clampKarat (k + 1)))))"



fun chained :: "ConversionRow list \<Rightarrow> bool" where
  "chained [] = True"
| "chained [r] = (minDensity r \<le> maxDensity r)"
| "chained (r # r' # rs) =
     (minDensity r \<le> maxDensity r \<and> maxDensity r' = minDensity r \<and> chained (r' # rs))"

section \<open>Binary64 numbers\<close>

text \<open>
  The second embedding keeps the rounding of the page's numbers. A number is \<open>NaN\<close>, an
  infinity, or a finite value \<open>Fin x\<close>; the finite values that arithmetic produces are
  the binary64 ones. \<open>quantize\<close> rounds a real to the nearest multiple of the unit in
  the last place of its binade (53 significant bits, exponents from -1074), a tie going
  to the even multiple; \<open>rnd\<close> adds the overflow to an infinity. The sign of zero is not
  kept: it shows only in a division by zero, and the page divides by constants and by a
  volume that it has tested to be positive.
\<close>

definition ilog2 :: "real \<Rightarrow> int" where
  \<comment> \<open>for \<open>0 < x\<close>, the \<open>k\<close> with \<open>2^k \<le> x < 2^(k+1)\<close>\<close>
  "ilog2 x = (if 1 \<le> x then bitlen \<lfloor>x\<rfloor> - 1 else - bitlen (\<lceil>1 / x\<rceil> - 1))"

definition round_ne :: "real \<Rightarrow> int" where
  \<comment> \<open>the nearest integer, the even one at a tie\<close>
  "round_ne y =
     (let f = \<lfloor>y\<rfloor>; r = y - of_int f
      in if r < 1 / 2 then f else if 1 / 2 < r then f + 1 else if even f then f else f + 1)"

definition expo :: "real \<Rightarrow> int" where
  \<comment> \<open>the exponent of the unit in the last place\<close>
  "expo x = max (- 1074) (ilog2 \<bar>x\<bar> - 52)"

definition quantize :: "real \<Rightarrow> real" where
  "quantize x = of_int (round_ne (x / 2 powi expo x)) * 2 powi expo x"

definition representable :: "real \<Rightarrow> bool" where
  "representable x = (\<exists>k e. x = of_int k * 2 powi e \<and> \<bar>k\<bar> < 2 ^ 53 \<and> - 1074 \<le> e)"

definition huge :: real where
  \<comment> \<open>the least size that rounds to an infinity\<close>
  "huge = 2 ^ 1024"

definition is_double :: "real \<Rightarrow> bool" where
  \<comment> \<open>a finite binary64 value: rounding leaves it as it is, and it is below \<open>2^1024\<close>\<close>
  "is_double x = (quantize x = x \<and> \<bar>x\<bar> < huge)"

datatype num = NaN | NegInf | PosInf | Fin real

definition rnd :: "real \<Rightarrow> num" where
  "rnd x =
     (let y = quantize x
      in if huge \<le> y then PosInf else if y \<le> - huge then NegInf else Fin y)"

definition lit :: "real \<Rightarrow> num" where
  \<comment> \<open>a decimal literal of the source, or a decimal text read by \<open>parseFloat\<close>\<close>
  "lit x = rnd x"

definition isNaN :: "num \<Rightarrow> bool" where
  "isNaN a = (a = NaN)"

definition js_lt :: "num \<Rightarrow> num \<Rightarrow> bool" where
  "js_lt a b =
     (case (a, b) of
        (NaN, _) \<Rightarrow> False
      | (_, NaN) \<Rightarrow> False
      | (Fin x, Fin y) \<Rightarrow> x < y
      | (NegInf, NegInf) \<Rightarrow> False
      | (NegInf, _) \<Rightarrow> True
      | (PosInf, _) \<Rightarrow> False
      | (Fin x, PosInf) \<Rightarrow> True
      | (Fin x, NegInf) \<Rightarrow> False)"

definition js_le :: "num \<Rightarrow> num \<Rightarrow> bool" where
  "js_le a b =
     (case (a, b) of
        (NaN, _) \<Rightarrow> False
      | (_, NaN) \<Rightarrow> False
      | (Fin x, Fin y) \<Rightarrow> x \<le> y
      | (NegInf, _) \<Rightarrow> True
      | (PosInf, PosInf) \<Rightarrow> True
      | (PosInf, _) \<Rightarrow> False
      | (Fin x, PosInf) \<Rightarrow> True
      | (Fin x, NegInf) \<Rightarrow> False)"

definition js_gt :: "num \<Rightarrow> num \<Rightarrow> bool" where
  "js_gt a b = js_lt b a"

definition js_ge :: "num \<Rightarrow> num \<Rightarrow> bool" where
  "js_ge a b = js_le b a"

definition Math_max64 :: "num \<Rightarrow> num \<Rightarrow> num" where
  "Math_max64 a b = (if isNaN a \<or> isNaN b then NaN else if js_lt a b then b else a)"

definition Math_min64 :: "num \<Rightarrow> num \<Rightarrow> num" where
  "Math_min64 a b = (if isNaN a \<or> isNaN b then NaN else if js_lt b a then b else a)"

definition Math_abs64 :: "num \<Rightarrow> num" where
  "Math_abs64 a = (case a of NaN \<Rightarrow> NaN | NegInf \<Rightarrow> PosInf | PosInf \<Rightarrow> PosInf | Fin x \<Rightarrow> Fin \<bar>x\<bar>)"

definition Math_round64 :: "num \<Rightarrow> num" where
  \<comment> \<open>the result is an integer near a binary64 value, so it is one itself\<close>
  "Math_round64 a = (case a of Fin x \<Rightarrow> Fin (Math_round x) | _ \<Rightarrow> a)"

definition js_add :: "num \<Rightarrow> num \<Rightarrow> num" where
  "js_add a b =
     (case (a, b) of
        (NaN, _) \<Rightarrow> NaN
      | (_, NaN) \<Rightarrow> NaN
      | (Fin x, Fin y) \<Rightarrow> rnd (x + y)
      | (PosInf, NegInf) \<Rightarrow> NaN
      | (NegInf, PosInf) \<Rightarrow> NaN
      | (PosInf, _) \<Rightarrow> PosInf
      | (NegInf, _) \<Rightarrow> NegInf
      | (Fin x, c) \<Rightarrow> c)"

definition js_sub :: "num \<Rightarrow> num \<Rightarrow> num" where
  "js_sub a b =
     (case (a, b) of
        (NaN, _) \<Rightarrow> NaN
      | (_, NaN) \<Rightarrow> NaN
      | (Fin x, Fin y) \<Rightarrow> rnd (x - y)
      | (PosInf, PosInf) \<Rightarrow> NaN
      | (NegInf, NegInf) \<Rightarrow> NaN
      | (PosInf, _) \<Rightarrow> PosInf
      | (NegInf, _) \<Rightarrow> NegInf
      | (Fin x, PosInf) \<Rightarrow> NegInf
      | (Fin x, NegInf) \<Rightarrow> PosInf)"

definition js_mul :: "num \<Rightarrow> num \<Rightarrow> num" where
  "js_mul a b =
     (case (a, b) of
        (NaN, _) \<Rightarrow> NaN
      | (_, NaN) \<Rightarrow> NaN
      | (Fin x, Fin y) \<Rightarrow> rnd (x * y)
      | (Fin x, c) \<Rightarrow>
          if x = 0 then NaN else if (0 < x) = (c = PosInf) then PosInf else NegInf
      | (c, Fin y) \<Rightarrow>
          if y = 0 then NaN else if (0 < y) = (c = PosInf) then PosInf else NegInf
      | (c, c') \<Rightarrow> if c = c' then PosInf else NegInf)"

definition js_div :: "num \<Rightarrow> num \<Rightarrow> num" where
  "js_div a b =
     (case (a, b) of
        (NaN, _) \<Rightarrow> NaN
      | (_, NaN) \<Rightarrow> NaN
      | (Fin x, Fin y) \<Rightarrow>
          if y = 0 then (if x = 0 then NaN else if 0 < x then PosInf else NegInf)
          else rnd (x / y)
      | (Fin x, c) \<Rightarrow> Fin 0
      | (c, Fin y) \<Rightarrow> if (0 \<le> y) = (c = PosInf) then PosInf else NegInf
      | (c, c') \<Rightarrow> NaN)"

definition toFixed64 :: "num \<Rightarrow> nat \<Rightarrow> string" where
  \<comment> \<open>for finite values below \<open>10^21\<close> in size\<close>
  "toFixed64 a f =
     (case a of
        NaN \<Rightarrow> ''NaN'' | PosInf \<Rightarrow> ''Infinity'' | NegInf \<Rightarrow> ''-Infinity''
      | Fin x \<Rightarrow> toFixed x f)"

definition numToString64 :: "num \<Rightarrow> string" where
  \<comment> \<open>for the finite values, multiples of one half\<close>
  "numToString64 a =
     (case a of
        NaN \<Rightarrow> ''NaN'' | PosInf \<Rightarrow> ''Infinity'' | NegInf \<Rightarrow> ''-Infinity''
      | Fin x \<Rightarrow> numberToString x)"

section \<open>The page on binary64 numbers\<close>

text \<open>
  The functions of the page again, with the name of each followed by 64: the same
  text, every operator and comparison the binary64 one.
\<close>

definition clamp64 :: "num \<Rightarrow> num \<Rightarrow> num \<Rightarrow> num" where
  "clamp64 n lo hi = Math_min64 hi (Math_max64 lo n)"

definition parseKaratLabel64 :: "string \<Rightarrow> num option" where
  "parseKaratLabel64 karatStr =
     (case matchKarat (toUpperCase (trim karatStr)) of
        None \<Rightarrow> None
      | Some m \<Rightarrow> Some (rnd (Number_of m)))"

definition getBadgeForRange64 :: "num \<Rightarrow> num \<Rightarrow> BadgeInfo" where
  "getBadgeForRange64 minK' maxK' =
     (let avg = js_div (js_add minK' maxK') (Fin 2) in
      if js_ge avg (Fin 22) then
        \<lparr>badge_label = ''Sangat Tinggi'', badge_color = ''bg-emerald-600 text-white'',
         badge_note = ''Mendekati emas murni (umumnya 22K+).''\<rparr>
      else if js_ge avg (Fin 18) then
        \<lparr>badge_label = ''Tinggi'', badge_color = ''bg-green-600 text-white'',
         badge_note = ''Kadar tinggi (umumnya 18K'' @ en_dash @ ''21K).''\<rparr>
      else if js_ge avg (Fin 14) then
        \<lparr>badge_label = ''Menengah'', badge_color = ''bg-amber-500 text-white'',
         badge_note = ''Kadar menengah (umumnya 14K'' @ en_dash @ ''17K).''\<rparr>
      else if js_ge avg (Fin 10) then
        \<lparr>badge_label = ''Rendah'', badge_color = ''bg-orange-600 text-white'',
         badge_note = ''Kadar rendah (umumnya 10K'' @ en_dash @ ''13K).''\<rparr>
      else
        \<lparr>badge_label = ''Sangat Rendah'', badge_color = ''bg-red-600 text-white'',
         badge_note = ''Kadar sangat rendah (di bawah 10K).''\<rparr>)"

record FinalRange64 =
  minK64 :: num
  maxK64 :: num
  range_label64 :: string

definition roundHalf64 :: "num \<Rightarrow> num" where
  "roundHalf64 x = js_div (Math_round64 (js_mul x (Fin 2))) (Fin 2)"

definition computeFinalRange64 :: "num \<Rightarrow> num option \<Rightarrow> FinalRange64" where
  "computeFinalRange64 karatFromPercent' karatFromDensity' =
     (let pMin = clamp64 (js_sub karatFromPercent' (Fin 1)) (Fin 0) (Fin 24);
          pMax = clamp64 (js_add karatFromPercent' (Fin 1)) (Fin 0) (Fin 24);
          (minK0, maxK0) =
            (case karatFromDensity' of
               None \<Rightarrow> (pMin, pMax)
             | Some kd \<Rightarrow>
                 (let dMin = clamp64 (js_sub kd (Fin 1)) (Fin 0) (Fin 24);
                      dMax = clamp64 (js_add kd (Fin 1)) (Fin 0) (Fin 24)
                  in (Math_min64 pMin dMin, Math_max64 pMax dMax)));
          minK1 = roundHalf64 minK0;
          maxK1 = roundHalf64 maxK0;
          (minK2, maxK2) = (if js_gt minK1 maxK1 then (maxK1, minK1) else (minK1, maxK1))
      in \<lparr>minK64 = minK2, maxK64 = maxK2,
          range_label64 = numToString64 minK2 @ ''K'' @ en_dash @ numToString64 maxK2 @ ''K''\<rparr>)"

definition getDeltaIndicator64 :: "num \<Rightarrow> num option \<Rightarrow> DeltaIndicator" where
  "getDeltaIndicator64 karatFromPercent' karatFromDensity' =
     (case karatFromDensity' of
        None \<Rightarrow>
          \<lparr>delta_text = '''', delta_label = OK,
           delta_note = ''Tidak ada pembanding densitas (di luar range tabel).''\<rparr>
      | Some kd \<Rightarrow>
          (let delta = Math_abs64 (js_sub karatFromPercent' kd);
               deltaRounded = js_div (Math_round64 (js_mul delta (Fin 10))) (Fin 10)
           in if js_ge deltaRounded (Fin 2) then
                \<lparr>delta_text = toFixed64 deltaRounded 1 @ ''K'', delta_label = WASPADA,
                 delta_note = ''Selisih besar. Bisa dipengaruhi batu permata, solder, rongga/berlubang, gelembung air, atau teknik penimbangan.''\<rparr>
              else
                \<lparr>delta_text = toFixed64 deltaRounded 1 @ ''K'', delta_label = OK,
                 delta_note = ''Selisih kecil. Hasil cenderung konsisten untuk screening cepat.''\<rparr>))"

definition conversionTable64 :: "ConversionRow list" where
  \<comment> \<open>the rows of the source, each number the binary64 value of its literal\<close>
  "conversionTable64 =
     map (\<lambda>row. \<lparr>karat = karat row, percent = quantize (percent row),
                  minDensity = quantize (minDensity row),
                  maxDensity = quantize (maxDensity row)\<rparr>) conversionTable"

definition calc_waterDensity64 :: "num \<Rightarrow> num" where
  "calc_waterDensity64 temp =
     (if \<not> isNaN temp then
        (if js_lt temp (Fin 10) then lit 0.9997
         else if js_gt temp (Fin 30) then lit 0.9957
         else Fin 1)
      else Fin 1)"

definition calc_volume64 :: "num \<Rightarrow> num \<Rightarrow> num \<Rightarrow> num" where
  "calc_volume64 air water temp = js_div (js_sub air water) (calc_waterDensity64 temp)"

definition calc_density64 :: "num \<Rightarrow> num \<Rightarrow> num \<Rightarrow> num" where
  "calc_density64 air water temp = js_div air (calc_volume64 air water temp)"

definition calc_goldPercent64 :: "num \<Rightarrow> num" where
  "calc_goldPercent64 d =
     (let minD = lit 9.7; maxD = lit 19.32
      in clamp64 (js_mul (js_div (js_sub d minD) (js_sub maxD minD)) (Fin 100)) (Fin 0) (Fin 100))"

definition calc_karatFromPercentNum64 :: "num \<Rightarrow> num" where
  "calc_karatFromPercentNum64 d = js_div (js_mul (calc_goldPercent64 d) (Fin 24)) (Fin 100)"

definition inBand64 :: "num \<Rightarrow> ConversionRow \<Rightarrow> bool" where
  "inBand64 d row = (js_ge d (Fin (minDensity row)) \<and> js_le d (Fin (maxDensity row)))"

fun scanTable64 :: "num \<Rightarrow> ConversionRow list \<Rightarrow> string \<times> string" where
  "scanTable64 d [] = (''?'', '''')"
| "scanTable64 d (row # rows) =
     (if inBand64 d row then
        (karat row,
         toFixed (minDensity row) 2 @ '' - '' @ toFixed (maxDensity row) 2 @ '' g/cm'' @
           superscript_three)
      else scanTable64 d rows)"

definition calculatePurity64 :: "num \<Rightarrow> num \<Rightarrow> num \<Rightarrow> error + CalcResult" where
  "calculatePurity64 air water temp =
     (if isNaN air \<or> isNaN water \<or> js_le air (Fin 0) \<or> js_le water (Fin 0)
      then Inl InvalidInputError
      else if js_le air water then Inl InvalidInputError
      else
        (let volume = calc_volume64 air water temp in
         if js_le volume (Fin 0) then Inl InvalidVolumeError
         else
           (let d = calc_density64 air water temp;
                gp = calc_goldPercent64 d;
                karatFromPercentNum = calc_karatFromPercentNum64 d;
                (kfd, krd) = scanTable64 d conversionTable64;
                karatFromDensityNum = parseKaratLabel64 kfd;
                final = computeFinalRange64 karatFromPercentNum karatFromDensityNum;
                badge = getBadgeForRange64 (minK64 final) (maxK64 final);
                delta = getDeltaIndicator64 karatFromPercentNum karatFromDensityNum
            in Inr \<lparr>density = toFixed64 d 2,
                    goldPercent = toFixed64 gp 1,
                    karatFromPercent = toFixed64 karatFromPercentNum 1 @ ''K'',
                    karatFromDensity = kfd,
                    karatRangeDensity = krd,
                    finalRange = range_label64 final,
                    badgeLabel = badge_label badge,
                    badgeColor = badge_color badge,
                    conclusionText =
                      ''Kesimpulan: perkiraan kadar emas berada di kisaran '' @
                      range_label64 final @ '' ('' @ badge_label badge @ ''). '' @
                      badge_note badge,
                    deltaKarat = delta_text delta,
                    deltaLabel = delta_label delta,
                    deltaNote = delta_note delta\<rparr>)))"

text \<open>
  The Range Reconciler in the words of the specification, with the two padded bounds
  \<open>k - 1\<close> and \<open>k + 1\<close> the binary64 difference and sum, and the clamp, the merge and the
  rounding to the nearest half the mathematical ones.
\<close>

definition spec_reconcile64 :: "real \<Rightarrow> real option \<Rightarrow> real \<times> real" where
  "spec_reconcile64 kp kd =
     (let pLo = spec_clampKarat (quantize (kp - 1));
          pHi = spec_clampKarat (quantize (kp + 1))
      in case kd of
           None \<Rightarrow> (spec_nearestHalf pLo, spec_nearestHalf pHi)
         | Some k \<Rightarrow>
             (spec_nearestHalf (min pLo (spec_clampKarat (quantize (k - 1)))),
              spec_nearestHalf (max pHi (spec_clampKarat (quantize (k + 1))))))"

text \<open>The merged bounds before the rounding to halves, as real numbers.\<close>

definition mergedMin64 :: "real \<Rightarrow> real option \<Rightarrow> real" where
  "mergedMin64 kp kd =
     (case kd of
        None \<Rightarrow> clamp (quantize (kp - 1)) 0 24
      | Some k \<Rightarrow> min (clamp (quantize (kp - 1)) 0 24) (clamp (quantize (k - 1)) 0 24))"

definition mergedMax64 :: "real \<Rightarrow> real option \<Rightarrow> real" where
  "mergedMax64 kp kd =
     (case kd of
        None \<Rightarrow> clamp (quantize (kp + 1)) 0 24
      | Some k \<Rightarrow> max (clamp (quantize (kp + 1)) 0 24) (clamp (quantize (k + 1)) 0 24))"

section \<open>Arithmetic of clamping and rounding\<close>

lemma clamp_bounds: "lo \<le> hi \<Longrightarrow> lo \<le> clamp n lo hi \<and> clamp n lo hi \<le> hi"
  by (simp add: clamp_def)

lemma clamp_mono: "x \<le> y \<Longrightarrow> clamp x lo hi \<le> clamp y lo hi"
  by (auto simp: clamp_def)

lemma clamp_cases: "lo \<le> hi \<Longrightarrow> clamp n lo hi = (if n < lo then lo else if hi < n then hi else n)"
  by (auto simp: clamp_def)

lemma Math_round_mono: "x \<le> y \<Longrightarrow> Math_round x \<le> Math_round y"
  by (simp add: Math_round_def floor_mono)

lemma roundHalf_mono: "x \<le> y \<Longrightarrow> roundHalf x \<le> roundHalf y"
  by (simp add: roundHalf_def Math_round_mono divide_right_mono)

lemma spec_roundHalfUp_floor: "spec_roundHalfUp y = \<lfloor>y + 1 / 2\<rfloor>"
proof (cases "y - of_int \<lfloor>y\<rfloor> < 1 / 2")
  case True
  then have "\<lfloor>y + 1 / 2\<rfloor> = \<lfloor>y\<rfloor>"
    by (intro floor_unique) linarith+
  with True show ?thesis by (simp add: spec_roundHalfUp_def)
next
  case False
  then have "\<lfloor>y + 1 / 2\<rfloor> = \<lfloor>y\<rfloor> + 1"
    by (intro floor_unique; simp; linarith)
  with False show ?thesis by (simp add: spec_roundHalfUp_def)
qed

lemma spec_nearestHalf_roundHalf: "spec_nearestHalf x = roundHalf x"
  by (simp add: spec_nearestHalf_def roundHalf_def Math_round_def spec_roundHalfUp_floor)

lemma spec_clampKarat_clamp: "spec_clampKarat x = clamp x 0 24"
  by (simp add: spec_clampKarat_def clamp_cases)

lemma roundHalf_steps:
  assumes "0 \<le> x" and "x \<le> 24"
  shows "\<exists>n::nat. n \<le> 48 \<and> roundHalf x = of_nat n / 2"
proof -
  let ?k = "\<lfloor>x * 2 + 1 / 2\<rfloor>"
  have lo: "0 \<le> ?k" using assms(1) by simp
  have "x * 2 + 1 / 2 < 49" using assms(2) by simp
  then have "?k < 49" by (simp add: floor_less_iff)
  then have hi: "nat ?k \<le> 48" by linarith
  have "roundHalf x = of_nat (nat ?k) / 2"
    using lo by (simp add: roundHalf_def Math_round_def)
  with hi show ?thesis by blast
qed

section \<open>The reconciled range\<close>

lemma merged_le: "mergedMin kp kd \<le> mergedMax kp kd"
proof -
  have "clamp (kp - 1) 0 24 \<le> clamp (kp + 1) 0 24"
    by (rule clamp_mono) simp
  then show ?thesis
    by (cases kd) (auto simp: mergedMin_def mergedMax_def min_def max_def)
qed

lemma merged_range: "0 \<le> mergedMin kp kd \<and> mergedMax kp kd \<le> 24"
  using clamp_bounds [of 0 24]
  by (cases kd) (simp_all add: mergedMin_def mergedMax_def min_def max_def)

lemma computeFinalRange_minK: "minK (computeFinalRange kp kd) = roundHalf (mergedMin kp kd)"
  using roundHalf_mono [OF merged_le, of kp kd]
  by (cases kd) (simp_all add: computeFinalRange_def Let_def mergedMin_def mergedMax_def)

lemma computeFinalRange_maxK: "maxK (computeFinalRange kp kd) = roundHalf (mergedMax kp kd)"
  using roundHalf_mono [OF merged_le, of kp kd]
  by (cases kd) (simp_all add: computeFinalRange_def Let_def mergedMin_def mergedMax_def)

lemma computeFinalRange_label:
  "range_label (computeFinalRange kp kd) =
     numberToString (minK (computeFinalRange kp kd)) @ ''K'' @ en_dash @
     numberToString (maxK (computeFinalRange kp kd)) @ ''K''"
  by (cases kd) (simp_all add: computeFinalRange_def Let_def)

text \<open>
  Both bounds are multiples of one half between 0 and 24: the numbers for which
  \<open>numberToString\<close> is the string that the template literal makes.
\<close>

lemma computeFinalRange_half_steps:
  "(\<exists>n::nat. n \<le> 48 \<and> minK (computeFinalRange kp kd) = of_nat n / 2) \<and>
   (\<exists>n::nat. n \<le> 48 \<and> maxK (computeFinalRange kp kd) = of_nat n / 2)"
proof -
  have "0 \<le> mergedMin kp kd" "mergedMin kp kd \<le> 24"
    using merged_range [of kp kd] merged_le [of kp kd] by simp_all
  moreover have "0 \<le> mergedMax kp kd" "mergedMax kp kd \<le> 24"
    using merged_range [of kp kd] merged_le [of kp kd] by simp_all
  ultimately show ?thesis
    unfolding computeFinalRange_minK computeFinalRange_maxK
    by (intro conjI roundHalf_steps)
qed

section \<open>The stages of the calculation\<close>


section \<open>The reference table\<close>

lemmas parse_defs = parseKaratLabel_def matchKarat_def toUpperCase_def trim_def isSpace_def
  isDigit_def Number_of_def digitsValue_def digitValue_def

lemma label_values:
  "map parseKaratLabel
     [''24K'', ''23K'', ''22K'', ''21K'', ''20K'', ''19K'', ''18K'', ''17K'', ''16K'', ''15K'',
      ''14K'', ''13K'', ''12K'', ''11K'', ''10K'', ''9K'', ''8K'', ''7K'', ''6K''] =
     [Some 24, Some 23, Some 22, Some 21, Some 20, Some 19, Some 18, Some 17, Some 16, Some 15,
      Some 14, Some 13, Some 12, Some 11, Some 10, Some 9, Some 8, Some 7, Some 6]"
  by (simp add: parse_defs)

lemma parse_question_mark: "parseKaratLabel ''?'' = None"
  by (simp add: parse_defs)




lemma find_in_set: "find P t = Some r \<Longrightarrow> r \<in> set t \<and> P r"
  by (induction t) (auto split: if_splits)


subsection \<open>Monotonicity of the first match in a descending table\<close>



subsection \<open>Coverage of a chained table\<close>

lemma chained_span: "chained t \<Longrightarrow> t \<noteq> [] \<Longrightarrow> minDensity (last t) \<le> maxDensity (hd t)"
  by (induction t rule: chained.induct) auto

lemma chained_find_None:
  "chained t \<Longrightarrow> t \<noteq> [] \<Longrightarrow>
   (find (inBand d) t = None) = (d < minDensity (last t) \<or> maxDensity (hd t) < d)"
proof (induction t rule: chained.induct)
  case 1
  then show ?case by simp
next
  case (2 r)
  then show ?case by (auto simp: inBand_def)
next
  case (3 r r' rs)
  have span: "minDensity (last (r' # rs)) \<le> maxDensity r'"
    using chained_span [of "r' # rs"] "3.prems" by simp
  have rest: "(find (inBand d) (r' # rs) = None) =
      (d < minDensity (last (r' # rs)) \<or> maxDensity r' < d)"
    using "3.IH" "3.prems" by simp
  have "(find (inBand d) (r # r' # rs) = None) =
      (\<not> inBand d r \<and> find (inBand d) (r' # rs) = None)"
    by simp
  also have "\<dots> = (d < minDensity (last (r' # rs)) \<or> maxDensity r < d)"
    unfolding rest using "3.prems" span by (auto simp: inBand_def)
  finally show ?case by simp
qed

section \<open>Scenario 1 of the specification\<close>

lemmas print_defs = toFixed_def numberToString_def natToString.simps digitChar_def padZeros_def


section \<open>The Range Reconciler\<close>

text \<open>
  C3. The range that \<open>computeFinalRange\<close> returns has its lower bound at most its upper
  bound, for every percent-based karat and every density-based karat, absent or present.
\<close>

theorem computeFinalRange_ordered:
  "minK (computeFinalRange kp kd) \<le> maxK (computeFinalRange kp kd) \<and>
   minK (computeFinalRange kp None) \<le> maxK (computeFinalRange kp None)"
proof -
  have ordered: "minK (computeFinalRange kp kd') \<le> maxK (computeFinalRange kp kd')" for kd'
  proof -
    have "roundHalf (mergedMin kp kd') \<le> roundHalf (mergedMax kp kd')"
      using merged_le by (rule roundHalf_mono)
    then show ?thesis
      by (simp only: computeFinalRange_minK computeFinalRange_maxK)
  qed
  show ?thesis
    using ordered [of kd] ordered [of None] by simp
qed

section \<open>Validation\<close>

text \<open>
  C4. \<open>calculatePurity\<close> ends with the invalid-input error, and so with no result
  record, exactly when a weight is not a number, a weight is at most 0, or the weight in
  air is at most the weight in water; the water temperature plays no part. Equal weights
  of 1 are such an input.
\<close>

theorem calculatePurity_invalid_input:
  "(calculatePurity airWeight waterWeight waterTemp = Inl InvalidInputError) =
     (airWeight = None \<or> waterWeight = None \<or>
      (\<exists>air water. airWeight = Some air \<and> waterWeight = Some water \<and>
         (air \<le> 0 \<or> water \<le> 0 \<or> air \<le> water))) \<and>
   calculatePurity (Some 1) (Some 1) waterTemp = Inl InvalidInputError"
proof -
  have "(calculatePurity airWeight waterWeight waterTemp = Inl InvalidInputError) =
     (airWeight = None \<or> waterWeight = None \<or>
      (\<exists>air water. airWeight = Some air \<and> waterWeight = Some water \<and>
         (air \<le> 0 \<or> water \<le> 0 \<or> air \<le> water)))"
    by (auto simp: calculatePurity_def Let_def split: option.splits prod.splits)
  moreover have "calculatePurity (Some 1) (Some 1) waterTemp = Inl InvalidInputError"
    by (simp add: calculatePurity_def)
  ultimately show ?thesis by simp
qed

section \<open>The percent and karat estimate\<close>


section \<open>The table lookup in exact arithmetic\<close>



section \<open>Rounding to binary64\<close>

lemma p2_mono: "a \<le> b \<Longrightarrow> (2::real) powi a \<le> 2 powi b"
  by (rule power_int_increasing) simp_all

lemma p2_less_imp: "(2::real) powi a < 2 powi b \<Longrightarrow> a < b"
  using p2_mono [of b a] by (cases "a < b") auto

lemma p2_pos: "0 < (2::real) powi a"
  by simp

lemma bitlen_pos: "0 < n \<Longrightarrow> 1 \<le> bitlen n"
  by (auto simp: bitlen_alt_def)

lemma ilog2_bounds:
  assumes "0 < x"
  shows "2 powi ilog2 x \<le> x \<and> x < 2 powi (ilog2 x + 1)"
proof (cases "1 \<le> x")
  case True
  define n where "n = \<lfloor>x\<rfloor>"
  define k where "k = bitlen n - 1"
  have n: "0 < n" using True by (simp add: n_def)
  have k: "0 \<le> k" using bitlen_pos [OF n] by (simp add: k_def)
  have b1: "2 ^ nat k \<le> n" and b2: "n < 2 ^ nat (k + 1)"
    using bitlen_bounds [OF n] by (simp_all add: k_def)
  have "(2::real) ^ nat k \<le> of_int n"
    using b1 by (metis of_int_le_iff of_int_numeral of_int_power)
  also have "\<dots> \<le> x" by (simp add: n_def)
  finally have lo: "2 powi k \<le> x" using k by (simp add: power_int_def)
  have "n + 1 \<le> 2 ^ nat (k + 1)" using b2 by simp
  then have "of_int (n + 1) \<le> (2::real) ^ nat (k + 1)"
    by (metis of_int_le_iff of_int_numeral of_int_power)
  moreover have "x < of_int (n + 1)" by (simp add: n_def)
  ultimately have "x < 2 ^ nat (k + 1)" by linarith
  then have hi: "x < 2 powi (k + 1)" using k by (simp add: power_int_def)
  have "ilog2 x = k" using True by (simp add: ilog2_def k_def n_def)
  with lo hi show ?thesis by simp
next
  case False
  define y where "y = 1 / x"
  define m where "m = \<lceil>y\<rceil> - 1"
  define k where "k = bitlen m"
  have y: "1 < y" using False assms by (simp add: y_def)
  have m: "0 < m" using y by (simp add: m_def less_ceiling_iff)
  have k: "1 \<le> k" using bitlen_pos [OF m] by (simp add: k_def)
  have b1: "2 ^ nat (k - 1) \<le> m" and b2: "m < 2 ^ nat k"
    using bitlen_bounds [OF m] by (simp_all add: k_def)
  have "m + 1 \<le> 2 ^ nat k" using b2 by simp
  then have "of_int (m + 1) \<le> (2::real) ^ nat k"
    by (metis of_int_le_iff of_int_numeral of_int_power)
  moreover have "y \<le> of_int (m + 1)" by (simp add: m_def)
  ultimately have yk: "y \<le> 2 ^ nat k" by linarith
  have "(2::real) ^ nat (k - 1) \<le> of_int m"
    using b1 by (metis of_int_le_iff of_int_numeral of_int_power)
  moreover have "of_int m < y" using ceiling_correct [of y] by (simp add: m_def)
  ultimately have ky: "2 ^ nat (k - 1) < y" by linarith
  have xy: "x = 1 / y" using assms by (simp add: y_def)
  have lo: "2 powi (- k) \<le> x"
  proof -
    have "1 / 2 ^ nat k \<le> 1 / y" using yk y by (simp add: frac_le)
    then show ?thesis using k xy by (simp add: power_int_def inverse_eq_divide power_one_over)
  qed
  have hi: "x < 2 powi (- k + 1)"
  proof -
    have "1 / y < 1 / 2 ^ nat (k - 1)" using ky by (simp add: frac_less2)
    moreover have "2 powi (- k + 1) = 1 / (2::real) ^ nat (k - 1)"
      using k by (cases "k = 1") (auto simp: power_int_def inverse_eq_divide power_one_over nat_diff_distrib)
    ultimately show ?thesis using xy by simp
  qed
  have "ilog2 x = - k" using False by (simp add: ilog2_def k_def m_def y_def)
  with lo hi show ?thesis by simp
qed

lemma ilog2_unique:
  assumes "0 < x" and "2 powi k \<le> x" and "x < 2 powi (k + 1)"
  shows "ilog2 x = k"
proof -
  have b: "2 powi ilog2 x \<le> x" "x < 2 powi (ilog2 x + 1)"
    using ilog2_bounds [OF assms(1)] by simp_all
  have "(2::real) powi k < 2 powi (ilog2 x + 1)" using assms(2) b(2) by linarith
  then have "k < ilog2 x + 1" by (rule p2_less_imp)
  moreover have "(2::real) powi ilog2 x < 2 powi (k + 1)" using assms(3) b(1) by linarith
  then have "ilog2 x < k + 1" by (rule p2_less_imp)
  ultimately show ?thesis by simp
qed

lemma round_ne_of_int: "round_ne (of_int n) = n"
  by (simp add: round_ne_def)

lemma round_ne_cases:
  "round_ne y = \<lfloor>y\<rfloor> \<or> round_ne y = \<lfloor>y\<rfloor> + 1"
  by (simp add: round_ne_def Let_def)

lemma round_ne_bounds:
  "y - 1 / 2 \<le> of_int (round_ne y) \<and> of_int (round_ne y) \<le> y + 1 / 2"
proof -
  define r where "r = y - of_int \<lfloor>y\<rfloor>"
  have r: "0 \<le> r" "r < 1" unfolding r_def by linarith+
  have y: "y = of_int \<lfloor>y\<rfloor> + r" by (simp add: r_def)
  consider "r < 1 / 2" | "1 / 2 < r" | "r = 1 / 2" by linarith
  then show ?thesis
  proof cases
    case 1
    then have "round_ne y = \<lfloor>y\<rfloor>" by (simp add: round_ne_def Let_def r_def)
    then show ?thesis using 1 r y by linarith
  next
    case 2
    then have "round_ne y = \<lfloor>y\<rfloor> + 1" by (simp add: round_ne_def Let_def r_def)
    then show ?thesis using 2 r y by simp
  next
    case 3
    have "round_ne y = \<lfloor>y\<rfloor> \<or> round_ne y = \<lfloor>y\<rfloor> + 1" by (rule round_ne_cases)
    then show ?thesis using 3 y by auto
  qed
qed

lemma round_ne_mono:
  assumes "x \<le> y"
  shows "round_ne x \<le> round_ne y"
proof (cases "\<lfloor>x\<rfloor> = \<lfloor>y\<rfloor>")
  case True
  then show ?thesis using assms by (auto simp: round_ne_def Let_def)
next
  case False
  then have "\<lfloor>x\<rfloor> < \<lfloor>y\<rfloor>" using assms floor_mono [of x y] by simp
  moreover have "round_ne x \<le> \<lfloor>x\<rfloor> + 1" using round_ne_cases [of x] by auto
  moreover have "\<lfloor>y\<rfloor> \<le> round_ne y" using round_ne_cases [of y] by auto
  ultimately show ?thesis by linarith
qed

lemma round_ne_ge: "of_int n \<le> y \<Longrightarrow> n \<le> round_ne y"
  using round_ne_mono [of "of_int n" y] by (simp add: round_ne_of_int)

lemma round_ne_le: "y \<le> of_int n \<Longrightarrow> round_ne y \<le> n"
  using round_ne_mono [of y "of_int n"] by (simp add: round_ne_of_int)

lemma round_ne_minus: "round_ne (- y) = - round_ne y"
proof (cases "y = of_int \<lfloor>y\<rfloor>")
  case True
  then obtain n where "y = of_int n" by blast
  then show ?thesis
    by (simp add: round_ne_of_int flip: of_int_minus)
next
  case False
  then have fl: "\<lfloor>- y\<rfloor> = - \<lfloor>y\<rfloor> - 1"
    by (metis ceiling_def floor_minus ceiling_altdef diff_minus_eq_add minus_diff_eq minus_add_distrib add.commute uminus_add_conv_diff)
  have "of_int \<lfloor>y\<rfloor> \<le> y" "y < of_int \<lfloor>y\<rfloor> + 1" by linarith+
  then show ?thesis using False
    unfolding round_ne_def Let_def fl by auto
qed

lemma expo_ge: "- 1074 \<le> expo x"
  by (simp add: expo_def)

lemma expo_minus: "expo (- x) = expo x"
  by (simp add: expo_def)

lemma quantize_minus: "quantize (- x) = - quantize x"
  by (simp add: quantize_def expo_minus round_ne_minus)

lemma quantize_0: "quantize 0 = 0"
  by (simp add: quantize_def round_ne_def)

lemma quantize_nonneg: "0 \<le> x \<Longrightarrow> 0 \<le> quantize x"
proof -
  assume "0 \<le> x"
  then have "of_int 0 \<le> x / 2 powi expo x" by simp
  then have "0 \<le> round_ne (x / 2 powi expo x)" by (rule round_ne_ge)
  then show ?thesis by (simp add: quantize_def)
qed

lemma ilog2_mono:
  assumes "0 < x" and "x \<le> y"
  shows "ilog2 x \<le> ilog2 y"
proof -
  have "2 powi ilog2 x \<le> x" using ilog2_bounds [OF assms(1)] by simp
  moreover have "y < 2 powi (ilog2 y + 1)" using ilog2_bounds [of y] assms by simp
  ultimately have "(2::real) powi ilog2 x < 2 powi (ilog2 y + 1)" using assms(2) by linarith
  then have "ilog2 x < ilog2 y + 1" by (rule p2_less_imp)
  then show ?thesis by simp
qed

lemma expo_mono: "0 < x \<Longrightarrow> x \<le> y \<Longrightarrow> expo x \<le> expo y"
  using ilog2_mono [of x y] by (simp add: expo_def)

lemma expo_upper:
  assumes "0 < x"
  shows "x < 2 powi (expo x + 53)"
proof -
  have "x < 2 powi (ilog2 x + 1)" using ilog2_bounds [OF assms] by simp
  also have "\<dots> \<le> 2 powi (expo x + 53)"
    using assms by (intro p2_mono) (simp add: expo_def)
  finally show ?thesis .
qed

lemma expo_lower:
  assumes "0 < x" and "- 1074 < expo x"
  shows "2 powi (expo x + 52) \<le> x"
proof -
  have "expo x = ilog2 x - 52" using assms by (simp add: expo_def)
  then have "expo x + 52 = ilog2 x" by simp
  then show ?thesis using ilog2_bounds [OF assms(1)] by simp
qed

lemma p2_split: "(2::real) powi (a + b) = 2 powi a * 2 powi b"
  by (rule power_int_add) simp

lemma quantize_upper:
  assumes "0 < x"
  shows "quantize x \<le> 2 powi (expo x + 53)"
proof -
  have "x / 2 powi expo x < 2 powi 53"
    using expo_upper [OF assms] by (simp add: p2_split divide_less_eq mult.commute)
  then have "x / 2 powi expo x \<le> of_int (2 ^ 53)" by simp
  then have "round_ne (x / 2 powi expo x) \<le> 2 ^ 53" by (rule round_ne_le)
  then have "of_int (round_ne (x / 2 powi expo x)) \<le> (2::real) ^ 53"
    by (metis of_int_le_iff of_int_numeral of_int_power)
  then have "quantize x \<le> 2 ^ 53 * 2 powi expo x"
    unfolding quantize_def by (intro mult_right_mono) simp_all
  then show ?thesis by (simp add: p2_split mult.commute)
qed

lemma quantize_lower:
  assumes "0 < x" and "- 1074 < expo x"
  shows "2 powi (expo x + 52) \<le> quantize x"
proof -
  have "2 powi 52 \<le> x / 2 powi expo x"
    using expo_lower [OF assms] by (simp add: p2_split le_divide_eq mult.commute)
  then have "of_int (2 ^ 52) \<le> x / 2 powi expo x" by simp
  then have "2 ^ 52 \<le> round_ne (x / 2 powi expo x)" by (rule round_ne_ge)
  then have "(2::real) ^ 52 \<le> of_int (round_ne (x / 2 powi expo x))"
    by (metis of_int_le_iff of_int_numeral of_int_power)
  then have "2 ^ 52 * 2 powi expo x \<le> quantize x"
    unfolding quantize_def by (intro mult_right_mono) simp_all
  then show ?thesis by (simp add: p2_split mult.commute)
qed

lemma quantize_mono_pos:
  assumes "0 < x" and "x \<le> y"
  shows "quantize x \<le> quantize y"
proof (cases "expo x = expo y")
  case True
  have "x / 2 powi expo y \<le> y / 2 powi expo y"
    using assms(2) by (simp add: divide_right_mono)
  then have "round_ne (x / 2 powi expo y) \<le> round_ne (y / 2 powi expo y)"
    by (rule round_ne_mono)
  then show ?thesis
    unfolding quantize_def True by (intro mult_right_mono) simp_all
next
  case False
  then have lt: "expo x < expo y" using expo_mono [OF assms] by simp
  have y: "0 < y" using assms by simp
  have "- 1074 < expo y" using lt expo_ge [of x] by simp
  then have "2 powi (expo y + 52) \<le> quantize y" using y by (intro quantize_lower)
  moreover have "quantize x \<le> 2 powi (expo x + 53)" using assms(1) by (rule quantize_upper)
  moreover have "(2::real) powi (expo x + 53) \<le> 2 powi (expo y + 52)"
    using lt by (intro p2_mono) simp
  ultimately show ?thesis by linarith
qed

lemma quantize_mono:
  assumes "x \<le> y"
  shows "quantize x \<le> quantize y"
proof -
  consider "0 < x" | "x = 0" | "x < 0" "0 \<le> y" | "y < 0" by linarith
  then show ?thesis
  proof cases
    case 1
    then show ?thesis using assms by (rule quantize_mono_pos)
  next
    case 2
    then show ?thesis using assms by (simp add: quantize_0 quantize_nonneg)
  next
    case 3
    have "0 \<le> quantize (- x)" using 3 by (intro quantize_nonneg) simp
    then have "quantize x \<le> 0" by (simp add: quantize_minus)
    then show ?thesis using quantize_nonneg [OF 3(2)] by linarith
  next
    case 4
    have "quantize (- y) \<le> quantize (- x)"
      using 4 assms by (intro quantize_mono_pos) simp_all
    then show ?thesis by (simp add: quantize_minus)
  qed
qed

lemma expo_at:
  assumes "2 powi k \<le> \<bar>x\<bar>" and "\<bar>x\<bar> < 2 powi (k + 1)"
  shows "expo x = max (- 1074) (k - 52)"
proof -
  have "0 < \<bar>x\<bar>" using assms(1) p2_pos [of k] by linarith
  then have "ilog2 \<bar>x\<bar> = k" using assms by (rule ilog2_unique)
  then show ?thesis by (simp add: expo_def)
qed

lemma quantize_at:
  assumes "2 powi k \<le> \<bar>x\<bar>" and "\<bar>x\<bar> < 2 powi (k + 1)" and "e = max (- 1074) (k - 52)"
  shows "quantize x = of_int (round_ne (x / 2 powi e)) * 2 powi e"
  using expo_at [OF assms(1,2)] assms(3) by (simp add: quantize_def)

lemma quantize_exact:
  assumes "x = of_int k * 2 powi e" and "\<bar>k\<bar> < 2 ^ 53" and "- 1074 \<le> e"
  shows "quantize x = x"
proof (cases "x = 0")
  case True
  then show ?thesis by (simp add: quantize_0)
next
  case False
  have pos: "0 < \<bar>x\<bar>" using False by simp
  have "\<bar>x\<bar> = of_int \<bar>k\<bar> * 2 powi e" by (simp add: assms(1) abs_mult)
  moreover have "of_int \<bar>k\<bar> < (2::real) ^ 53"
    using assms(2) by (metis of_int_less_iff of_int_numeral of_int_power)
  ultimately have "\<bar>x\<bar> < 2 ^ 53 * 2 powi e"
    by (simp add: mult_strict_right_mono)
  then have "\<bar>x\<bar> < 2 powi (e + 53)" by (simp add: p2_split mult.commute)
  moreover have "2 powi ilog2 \<bar>x\<bar> \<le> \<bar>x\<bar>" using ilog2_bounds [OF pos] by simp
  ultimately have "(2::real) powi ilog2 \<bar>x\<bar> < 2 powi (e + 53)" by linarith
  then have "ilog2 \<bar>x\<bar> < e + 53" by (rule p2_less_imp)
  then have le: "expo x \<le> e" using assms(3) by (simp add: expo_def)
  define j where "j = k * 2 ^ nat (e - expo x)"
  have "(2::real) powi e = 2 powi (e - expo x) * 2 powi expo x"
    by (simp flip: p2_split)
  also have "(2::real) powi (e - expo x) = 2 ^ nat (e - expo x)"
    using le by (simp add: power_int_def)
  finally have xj: "x = of_int j * 2 powi expo x"
    by (simp add: assms(1) j_def)
  have "of_int j * 2 powi expo x / 2 powi expo x = (of_int j :: real)" by simp
  then have "x / 2 powi expo x = of_int j" using xj by simp
  then have "quantize x = of_int j * 2 powi expo x"
    by (simp add: quantize_def round_ne_of_int)
  with xj show ?thesis by simp
qed

lemma representable_quantize_id: "representable x \<Longrightarrow> quantize x = x"
  unfolding representable_def using quantize_exact by blast

lemma representable_quantize: "representable (quantize x)"
proof (cases "x = 0")
  case True
  have "(0::real) = of_int 0 * 2 powi 0" by simp
  then show ?thesis unfolding True quantize_0 representable_def
    by (intro exI [of _ 0] exI [of _ "0::int"]) simp
next
  case False
  define e where "e = expo x"
  define n where "n = round_ne (x / 2 powi e)"
  have q: "quantize x = of_int n * 2 powi e" by (simp add: quantize_def n_def e_def)
  have e: "- 1074 \<le> e" by (simp add: e_def expo_ge)
  have "\<bar>x\<bar> < 2 powi (e + 53)" using expo_upper [of "\<bar>x\<bar>"] False by (simp add: e_def expo_def)
  then have "\<bar>x / 2 powi e\<bar> < 2 ^ 53"
    by (simp add: p2_split divide_less_eq mult.commute)
  then have "x / 2 powi e \<le> 2 ^ 53" "- (2 ^ 53) \<le> x / 2 powi e" by linarith+
  then have up: "x / 2 powi e \<le> of_int (2 ^ 53)"
    and down: "of_int (- (2 ^ 53)) \<le> x / 2 powi e" by simp_all
  have "n \<le> 2 ^ 53" unfolding n_def using up by (rule round_ne_le)
  moreover have "- (2 ^ 53) \<le> n" unfolding n_def using down by (rule round_ne_ge)
  ultimately have "n \<le> 2 ^ 53" "- (2 ^ 53) \<le> n" by simp_all
  then consider "\<bar>n\<bar> < 2 ^ 53" | "n = 2 ^ 53" | "n = - (2 ^ 53)" by linarith
  then show ?thesis
  proof cases
    case 1
    then show ?thesis unfolding representable_def q using e by blast
  next
    case 2
    have "quantize x = of_int (2 ^ 52) * 2 powi (e + 1)"
      by (simp add: q 2 p2_split)
    moreover have "\<bar>2 ^ 52 :: int\<bar> < 2 ^ 53" by simp
    moreover have "- 1074 \<le> e + 1" using e by simp
    ultimately show ?thesis unfolding representable_def by blast
  next
    case 3
    have "quantize x = of_int (- (2 ^ 52)) * 2 powi (e + 1)"
      by (simp add: q 3 p2_split)
    moreover have "\<bar>- (2 ^ 52) :: int\<bar> < 2 ^ 53" by simp
    moreover have "- 1074 \<le> e + 1" using e by simp
    ultimately show ?thesis unfolding representable_def by blast
  qed
qed

lemma representable_iff: "representable x \<longleftrightarrow> quantize x = x"
  using representable_quantize_id representable_quantize [of x] by auto

lemma quantize_idem: "quantize (quantize x) = quantize x"
  using representable_quantize by (rule representable_quantize_id)

lemma representable_int:
  assumes "\<bar>n\<bar> < 2 ^ 53"
  shows "representable (of_int n)"
proof -
  have "of_int n = of_int n * (2::real) powi 0" by simp
  then show ?thesis unfolding representable_def using assms
    by (intro exI [of _ n] exI [of _ "0::int"]) simp
qed

lemma representable_half:
  assumes "\<bar>n\<bar> < 2 ^ 53"
  shows "representable (of_int n / 2)"
proof -
  have "of_int n / 2 = of_int n * (2::real) powi (- 1)" by simp
  then show ?thesis unfolding representable_def using assms
    by (intro exI [of _ n] exI [of _ "- 1::int"]) simp
qed

lemma representable_double:
  assumes "representable x"
  shows "representable (x * 2)"
proof -
  obtain k e where "x = of_int k * 2 powi e" "\<bar>k\<bar> < 2 ^ 53" "- 1074 \<le> e"
    using assms unfolding representable_def by blast
  then have "x * 2 = of_int k * 2 powi (e + 1)" "- 1074 \<le> e + 1"
    by (simp_all add: p2_split)
  with \<open>\<bar>k\<bar> < 2 ^ 53\<close> show ?thesis unfolding representable_def by blast
qed

lemma representable_grid:
  assumes "representable x"
  shows "\<exists>j. x = of_int j * 2 powi (- 1074)"
proof -
  obtain k e where x: "x = of_int k * 2 powi e" and e: "- 1074 \<le> e"
    using assms unfolding representable_def by blast
  have "(2::real) powi e = 2 powi (e + 1074) * 2 powi (- 1074)"
    by (subst p2_split [symmetric]) simp
  also have "(2::real) powi (e + 1074) = 2 ^ nat (e + 1074)"
    using e by (simp add: power_int_def)
  finally have "x = of_int (k * 2 ^ nat (e + 1074)) * 2 powi (- 1074)"
    by (simp add: x)
  then show ?thesis by blast
qed

lemma representable_gap:
  assumes "representable a" and "representable b" and "b < a"
  shows "2 powi (- 1074) \<le> a - b"
proof -
  obtain i j where a: "a = of_int i * 2 powi (- 1074)" and b: "b = of_int j * 2 powi (- 1074)"
    using assms(1,2) representable_grid by blast
  have "of_int j * (2::real) powi (- 1074) < of_int i * 2 powi (- 1074)"
    using assms(3) a b by simp
  then have "(of_int j :: real) < of_int i"
    by (simp only: mult_less_cancel_right_pos [OF p2_pos])
  then have "j + 1 \<le> i" by simp
  then have "(of_int (j + 1) :: real) \<le> of_int i" by (simp only: of_int_le_iff)
  then have "of_int (j + 1) * (2::real) powi (- 1074) \<le> of_int i * 2 powi (- 1074)"
    by (intro mult_right_mono) simp_all
  then show ?thesis by (simp add: a b algebra_simps)
qed

lemma quantize_pos_grid:
  assumes "2 powi (- 1074) \<le> x"
  shows "2 powi (- 1074) \<le> quantize x"
proof -
  have "representable (2 powi (- 1074))"
    unfolding representable_def by (intro exI [of _ 1] exI [of _ "- 1074::int"]) simp
  then have "quantize (2 powi (- 1074)) = 2 powi (- 1074)" by (rule representable_quantize_id)
  then show ?thesis using quantize_mono [OF assms] by simp
qed

section \<open>Binary64 values of the literals\<close>

lemma huge_gt: "x \<le> 2 ^ 53 \<Longrightarrow> x < huge"
  by (simp add: huge_def)

lemma rnd_Fin: "\<bar>quantize x\<bar> < huge \<Longrightarrow> rnd x = Fin (quantize x)"
  by (simp add: rnd_def Let_def abs_less_iff not_le)

lemma rnd_representable: "representable x \<Longrightarrow> \<bar>x\<bar> < huge \<Longrightarrow> rnd x = Fin x"
  by (simp add: rnd_Fin representable_quantize_id)

lemma quantize_small:
  assumes "\<bar>x\<bar> \<le> 2 ^ 53"
  shows "\<bar>quantize x\<bar> < huge"
proof -
  define c :: real where "c = 2 ^ 53"
  have "representable c"
    unfolding representable_def c_def by (intro exI [of _ 1] exI [of _ "53::int"]) simp
  then have qc: "quantize c = c" by (rule representable_quantize_id)
  have "x \<le> c" "- c \<le> x" using assms by (simp_all add: c_def abs_le_iff)
  then have "quantize x \<le> c" "- c \<le> quantize x"
    using quantize_mono [of x c] quantize_mono [of "- c" x] qc quantize_minus [of c] by simp_all
  moreover have "c < huge" by (simp add: c_def huge_def)
  ultimately show ?thesis by (simp add: abs_less_iff)
qed

lemma rnd_small: "\<bar>x\<bar> \<le> 2 ^ 53 \<Longrightarrow> rnd x = Fin (quantize x)"
  by (rule rnd_Fin) (rule quantize_small)

lemma rnd_int: "\<bar>n\<bar> < 2 ^ 53 \<Longrightarrow> rnd (of_int n) = Fin (of_int n)"
proof -
  assume n: "\<bar>n\<bar> < 2 ^ 53"
  then have "\<bar>of_int n :: real\<bar> < 2 ^ 53"
    by (metis of_int_abs of_int_less_iff of_int_numeral of_int_power)
  then have "\<bar>of_int n :: real\<bar> < huge" by (intro huge_gt) simp
  then show ?thesis using n by (intro rnd_representable representable_int)
qed

lemma quantize_19_20: "quantize (96 / 5) = 5404319552844595 / 2 ^ 48"
  using quantize_at [of "4" "96 / 5" "- 48"] by (simp add: round_ne_def)

lemma quantize_19_32: "quantize (483 / 25) = 2719048275024937 / 2 ^ 47"
  using quantize_at [of "4" "483 / 25" "- 48"] by (simp add: round_ne_def)

lemma quantize_18_60: "quantize (93 / 5) = 2617717283409101 / 2 ^ 47"
  using quantize_at [of "4" "93 / 5" "- 48"] by (simp add: round_ne_def)

lemma quantize_17_70: "quantize (177 / 10) = 4982107087778611 / 2 ^ 48"
  using quantize_at [of "4" "177 / 10" "- 48"] by (simp add: round_ne_def)

lemma quantize_16_90: "quantize (169 / 10) = 2378463553205043 / 2 ^ 47"
  using quantize_at [of "4" "169 / 10" "- 48"] by (simp add: round_ne_def)

lemma quantize_16_20: "quantize (81 / 5) = 4559894622712627 / 2 ^ 48"
  using quantize_at [of "4" "81 / 5" "- 48"] by (simp add: round_ne_def)

lemma quantize_15_60: "quantize (78 / 5) = 8782019273372467 / 2 ^ 49"
  using quantize_at [of "3" "78 / 5" "- 49"] by (simp add: round_ne_def)

lemma quantize_15_20: "quantize (76 / 5) = 4278419646001971 / 2 ^ 48"
  using quantize_at [of "3" "76 / 5" "- 49"] by (simp add: round_ne_def)

lemma quantize_14_70: "quantize (147 / 10) = 4137682157646643 / 2 ^ 48"
  using quantize_at [of "3" "147 / 10" "- 49"] by (simp add: round_ne_def)

lemma quantize_14_20: "quantize (71 / 5) = 3996944669291315 / 2 ^ 48"
  using quantize_at [of "3" "71 / 5" "- 49"] by (simp add: round_ne_def)

lemma quantize_13_70: "quantize (137 / 10) = 3856207180935987 / 2 ^ 48"
  using quantize_at [of "3" "137 / 10" "- 49"] by (simp add: round_ne_def)

lemma quantize_13_00: "quantize (13) = 13"
  using quantize_at [of "3" "13" "- 49"] by (simp add: round_ne_def)

lemma quantize_12_60: "quantize (63 / 5) = 7093169413108531 / 2 ^ 49"
  using quantize_at [of "3" "63 / 5" "- 49"] by (simp add: round_ne_def)

lemma quantize_12_00: "quantize (12) = 12"
  using quantize_at [of "3" "12" "- 49"] by (simp add: round_ne_def)

lemma quantize_11_60: "quantize (58 / 5) = 6530219459687219 / 2 ^ 49"
  using quantize_at [of "3" "58 / 5" "- 49"] by (simp add: round_ne_def)

lemma quantize_11_30: "quantize (113 / 10) = 3180667236830413 / 2 ^ 48"
  using quantize_at [of "3" "113 / 10" "- 49"] by (simp add: round_ne_def)

lemma quantize_10_90: "quantize (109 / 10) = 6136154492292301 / 2 ^ 49"
  using quantize_at [of "3" "109 / 10" "- 49"] by (simp add: round_ne_def)

lemma quantize_10_50: "quantize (21 / 2) = 21 / 2 ^ 1"
  using quantize_at [of "3" "21 / 2" "- 49"] by (simp add: round_ne_def)

lemma quantize_10_10: "quantize (101 / 10) = 5685794529555251 / 2 ^ 49"
  using quantize_at [of "3" "101 / 10" "- 49"] by (simp add: round_ne_def)

lemma quantize_9_70: "quantize (97 / 10) = 2730307274093363 / 2 ^ 48"
  using quantize_at [of "3" "97 / 10" "- 49"] by (simp add: round_ne_def)

lemma quantize_0_9997: "quantize (9997 / 10000) = 4502248547482285 / 2 ^ 52"
  using quantize_at [of "- 1" "9997 / 10000" "- 53"] by (simp add: round_ne_def)

lemma quantize_0_9957: "quantize (9957 / 10000) = 4484234148972803 / 2 ^ 52"
  using quantize_at [of "- 1" "9957 / 10000" "- 53"] by (simp add: round_ne_def)

lemmas literal_values =
  quantize_19_20
  quantize_19_32
  quantize_18_60
  quantize_17_70
  quantize_16_90
  quantize_16_20
  quantize_15_60
  quantize_15_20
  quantize_14_70
  quantize_14_20
  quantize_13_70
  quantize_13_00
  quantize_12_60
  quantize_12_00
  quantize_11_60
  quantize_11_30
  quantize_10_90
  quantize_10_50
  quantize_10_10
  quantize_9_70


lemma table64_maxDensity:
  "map maxDensity conversionTable64 =
     [2719048275024937 / 2 ^ 47,
      5404319552844595 / 2 ^ 48,
      2617717283409101 / 2 ^ 47,
      4982107087778611 / 2 ^ 48,
      2378463553205043 / 2 ^ 47,
      4559894622712627 / 2 ^ 48,
      8782019273372467 / 2 ^ 49,
      4278419646001971 / 2 ^ 48,
      4137682157646643 / 2 ^ 48,
      3996944669291315 / 2 ^ 48,
      3856207180935987 / 2 ^ 48,
      13,
      7093169413108531 / 2 ^ 49,
      12,
      6530219459687219 / 2 ^ 49,
      3180667236830413 / 2 ^ 48,
      6136154492292301 / 2 ^ 49,
      21 / 2 ^ 1,
      5685794529555251 / 2 ^ 49]"
  by (simp add: conversionTable64_def conversionTable_def literal_values)

section \<open>Comparison, clamping and rounding to halves on binary64 numbers\<close>

lemma js_cmp_Fin [simp]:
  "js_lt (Fin x) (Fin y) = (x < y)" "js_le (Fin x) (Fin y) = (x \<le> y)"
  "js_gt (Fin x) (Fin y) = (y < x)" "js_ge (Fin x) (Fin y) = (y \<le> x)"
  by (simp_all add: js_lt_def js_le_def js_gt_def js_ge_def)

lemma Math_min64_Fin [simp]: "Math_min64 (Fin x) (Fin y) = Fin (min x y)"
  by (auto simp: Math_min64_def isNaN_def min_def)

lemma Math_max64_Fin [simp]: "Math_max64 (Fin x) (Fin y) = Fin (max x y)"
  by (auto simp: Math_max64_def isNaN_def max_def)

lemma clamp64_rnd:
  assumes "lo \<le> hi" and "hi < huge" and "- huge < lo"
  shows "clamp64 (rnd t) (Fin lo) (Fin hi) = Fin (clamp (quantize t) lo hi)"
proof -
  consider "huge \<le> quantize t" | "quantize t \<le> - huge" | "\<bar>quantize t\<bar> < huge"
    by linarith
  then show ?thesis
  proof cases
    case 1
    then have "rnd t = PosInf" by (simp add: rnd_def)
    moreover have "clamp (quantize t) lo hi = hi" using 1 assms by (simp add: clamp_def)
    ultimately show ?thesis
      by (simp add: clamp64_def Math_min64_def Math_max64_def isNaN_def js_lt_def)
  next
    case 2
    have "0 < huge" by (simp add: huge_def)
    then have "rnd t = NegInf" using 2 by (simp add: rnd_def Let_def)
    moreover have "clamp (quantize t) lo hi = lo" using 2 assms by (simp add: clamp_def)
    ultimately show ?thesis using assms(1)
      by (simp add: clamp64_def Math_min64_def Math_max64_def isNaN_def js_lt_def)
  next
    case 3
    then have "rnd t = Fin (quantize t)" by (rule rnd_Fin)
    then show ?thesis by (simp add: clamp64_def clamp_def)
  qed
qed

lemma representable_0: "representable 0"
  using representable_int [of 0] by simp

lemma representable_24: "representable 24"
  using representable_int [of 24] by simp

lemma representable_clamp24: "representable (clamp (quantize t) 0 24)"
proof -
  have "clamp (quantize t) 0 24 = 0 \<or> clamp (quantize t) 0 24 = 24 \<or>
      clamp (quantize t) 0 24 = quantize t"
    by (auto simp: clamp_def min_def max_def)
  then show ?thesis
    using representable_0 representable_24 representable_quantize [of t] by auto
qed

lemma representable_min: "representable x \<Longrightarrow> representable y \<Longrightarrow> representable (min x y)"
  by (simp add: min_def)

lemma representable_max: "representable x \<Longrightarrow> representable y \<Longrightarrow> representable (max x y)"
  by (simp add: max_def)

lemma roundHalf64_Fin:
  assumes "representable c" and "0 \<le> c" and "c \<le> 24"
  shows "roundHalf64 (Fin c) = Fin (roundHalf c)"
proof -
  define m where "m = \<lfloor>c * 2 + 1 / 2\<rfloor>"
  have m: "0 \<le> m" "m \<le> 48" using assms(2,3) unfolding m_def by (simp_all add: floor_le_iff) 
  have "js_mul (Fin c) (Fin 2) = rnd (c * 2)" by (simp add: js_mul_def)
  also have "\<dots> = Fin (c * 2)"
    using assms by (intro rnd_representable representable_double huge_gt) simp_all
  finally have "Math_round64 (js_mul (Fin c) (Fin 2)) = Fin (of_int m)"
    by (simp add: Math_round64_def Math_round_def m_def)
  moreover have "js_div (Fin (of_int m)) (Fin 2) = rnd (of_int m / 2)"
    by (simp add: js_div_def)
  moreover have "rnd (of_int m / 2) = Fin (of_int m / 2)"
    using m by (intro rnd_representable representable_half huge_gt) simp_all
  ultimately show ?thesis
    by (simp add: roundHalf64_def roundHalf_def Math_round_def m_def)
qed

lemma merged64_le: "mergedMin64 kp kd \<le> mergedMax64 kp kd"
proof -
  have "quantize (kp - 1) \<le> quantize (kp + 1)" by (rule quantize_mono) simp
  then have "clamp (quantize (kp - 1)) 0 24 \<le> clamp (quantize (kp + 1)) 0 24"
    by (rule clamp_mono)
  then show ?thesis
    by (cases kd) (auto simp: mergedMin64_def mergedMax64_def min_def max_def)
qed

lemma merged64_range: "0 \<le> mergedMin64 kp kd \<and> mergedMax64 kp kd \<le> 24"
  using clamp_bounds [of 0 24]
  by (cases kd) (simp_all add: mergedMin64_def mergedMax64_def min_def max_def)

lemma merged64_representable:
  "representable (mergedMin64 kp kd) \<and> representable (mergedMax64 kp kd)"
  by (cases kd)
    (simp_all add: mergedMin64_def mergedMax64_def representable_clamp24 representable_min
      representable_max)

lemma computeFinalRange64_Fin:
  "computeFinalRange64 (Fin kp) (map_option Fin kd) =
     \<lparr>minK64 = Fin (roundHalf (mergedMin64 kp kd)),
      maxK64 = Fin (roundHalf (mergedMax64 kp kd)),
      range_label64 =
        numberToString (roundHalf (mergedMin64 kp kd)) @ ''K'' @ en_dash @
        numberToString (roundHalf (mergedMax64 kp kd)) @ ''K''\<rparr>"
proof -
  have c: "clamp64 (rnd t) (Fin 0) (Fin 24) = Fin (clamp (quantize t) 0 24)" for t
    by (rule clamp64_rnd) (simp_all add: huge_def)
  have lo: "0 \<le> mergedMin64 kp kd" "mergedMin64 kp kd \<le> 24"
    using merged64_range [of kp kd] merged64_le [of kp kd] by simp_all
  have hi: "0 \<le> mergedMax64 kp kd" "mergedMax64 kp kd \<le> 24"
    using merged64_range [of kp kd] merged64_le [of kp kd] by simp_all
  have rl: "roundHalf64 (Fin (mergedMin64 kp kd)) = Fin (roundHalf (mergedMin64 kp kd))"
    using merged64_representable [of kp kd] lo by (intro roundHalf64_Fin) simp_all
  have rh: "roundHalf64 (Fin (mergedMax64 kp kd)) = Fin (roundHalf (mergedMax64 kp kd))"
    using merged64_representable [of kp kd] hi by (intro roundHalf64_Fin) simp_all
  have noswap: "\<not> roundHalf (mergedMax64 kp kd) < roundHalf (mergedMin64 kp kd)"
    using roundHalf_mono [OF merged64_le, of kp kd] by simp
  show ?thesis
  proof (cases kd)
    case None
    then show ?thesis
      using rl rh noswap
      by (simp add: computeFinalRange64_def js_sub_def js_add_def c mergedMin64_def
          mergedMax64_def numToString64_def)
  next
    case (Some k)
    then show ?thesis
      using rl rh noswap
      by (simp add: computeFinalRange64_def js_sub_def js_add_def c mergedMin64_def
          mergedMax64_def numToString64_def)
  qed
qed

lemma spec_reconcile64_merged:
  "spec_reconcile64 kp kd = (roundHalf (mergedMin64 kp kd), roundHalf (mergedMax64 kp kd))"
  by (cases kd)
    (simp_all add: spec_reconcile64_def Let_def spec_nearestHalf_roundHalf
      spec_clampKarat_clamp mergedMin64_def mergedMax64_def)

lemma quantize_kp0_plus_1: "quantize (10133099161583615 / 4503599627370496) = 9 / 2 ^ 2"
  using quantize_at [of "1" "10133099161583615 / 4503599627370496" "- 51"] by (simp add: round_ne_def)

lemma quantize_1_95: "quantize (39 / 20) = 8782019273372467 / 2 ^ 52"
  using quantize_at [of "0" "39 / 20" "- 52"] by (simp add: round_ne_def)

lemma quantize_1_95_times_10: "quantize (43910096366862335 / 2251799813685248) = 39 / 2 ^ 1"
  using quantize_at [of "4" "43910096366862335 / 2251799813685248" "- 48"] by (simp add: round_ne_def)

section \<open>The Range Reconciler on binary64 numbers\<close>

lemma is_double_kp0: "is_double (5629499534213119 / 4503599627370496)"
proof -
  have "quantize (5629499534213119 / 4503599627370496) = 5629499534213119 / 4503599627370496"
    using quantize_exact [of "5629499534213119 / 4503599627370496" 5629499534213119 "- 52"] by simp
  then show ?thesis by (simp add: is_double_def huge_def)
qed

text \<open>
  C2, the claim read in exact arithmetic, fails: 1.2499999999999998, the binary64
  number just below 5/4, lies in \<open>[0,24]\<close>; its sum with 1 is halfway between two
  binary64 numbers and rounds to 9/4, so the page returns the upper bound 2.5, where the
  nearest half of the exact sum is 2.
\<close>

theorem computeFinalRange_exact_counterexample:
  "is_double (5629499534213119 / 4503599627370496) \<and>
   maxK64 (computeFinalRange64 (Fin (5629499534213119 / 4503599627370496)) None) = Fin (5 / 2) \<and>
   snd (spec_reconcile (5629499534213119 / 4503599627370496) None) = 2 \<and>
   maxK64 (computeFinalRange64 (Fin (5629499534213119 / 4503599627370496)) None) \<noteq>
     Fin (snd (spec_reconcile (5629499534213119 / 4503599627370496) None))"
proof -
  have code: "maxK64 (computeFinalRange64 (Fin (5629499534213119 / 4503599627370496)) None) = Fin (5 / 2)"
    using computeFinalRange64_Fin [of "5629499534213119 / 4503599627370496" None]
    by (simp add: mergedMax64_def quantize_kp0_plus_1 clamp_def roundHalf_def Math_round_def)
  have spec: "snd (spec_reconcile (5629499534213119 / 4503599627370496) None) = 2"
    by (simp add: spec_reconcile_def spec_clampKarat_def spec_nearestHalf_def
        spec_roundHalfUp_def)
  show ?thesis
    using is_double_kp0 by (simp add: code spec)
qed

text \<open>
  C2 as amended. For every percent-based karat and every density-based karat, present
  or absent, the bounds of \<open>computeFinalRange\<close> are: the binary64 difference \<open>k - 1\<close>
  and sum \<open>k + 1\<close> of each estimate, clamped to \<open>[0,24]\<close>; with a density estimate, the
  minimum of the two lower and the maximum of the two upper bounds; each then rounded to
  the nearest half, half up on twice the value, with no further rounding error. The
  label joins the two bounds.
\<close>

theorem computeFinalRange64_refines_spec:
  "minK64 (computeFinalRange64 (Fin kp) (map_option Fin kd)) = Fin (fst (spec_reconcile64 kp kd)) \<and>
   maxK64 (computeFinalRange64 (Fin kp) (map_option Fin kd)) = Fin (snd (spec_reconcile64 kp kd)) \<and>
   range_label64 (computeFinalRange64 (Fin kp) (map_option Fin kd)) =
     numberToString (fst (spec_reconcile64 kp kd)) @ ''K'' @ en_dash @
     numberToString (snd (spec_reconcile64 kp kd)) @ ''K''"
  by (simp add: computeFinalRange64_Fin spec_reconcile64_merged)

section \<open>The consistency indicator on binary64 numbers\<close>

text \<open>
  C8, the claim read in exact arithmetic, fails: for the karats 1.95 (the binary64
  number of that literal) and 0 the difference times 10 is just below 19.5 and rounds,
  as a binary64 product, to 19.5; the page rounds that to 20 and shows WASPADA with
  "2.0K", where the exact product rounds to 19 and gives 1.9, below the threshold.
\<close>

theorem getDeltaIndicator_exact_counterexample:
  "lit (39 / 20) = Fin (8782019273372467 / 4503599627370496) \<and>
   delta_label (getDeltaIndicator64 (lit (39 / 20)) (Some (Fin 0))) = WASPADA \<and>
   delta_text (getDeltaIndicator64 (lit (39 / 20)) (Some (Fin 0))) = ''2.0K'' \<and>
   Math_round (\<bar>8782019273372467 / 4503599627370496 - 0\<bar> * 10) / 10 = 19 / 10 \<and>
   (delta_label (getDeltaIndicator64 (lit (39 / 20)) (Some (Fin 0))) = WASPADA) \<noteq>
     (2 \<le> Math_round (\<bar>8782019273372467 / 4503599627370496 - 0\<bar> * 10) / 10)"
proof -
  have l: "lit (39 / 20) = Fin (8782019273372467 / 4503599627370496)"
    unfolding lit_def by (subst rnd_small) (simp_all add: quantize_1_95)
  have "quantize (8782019273372467 / 4503599627370496) = 8782019273372467 / 4503599627370496"
    using quantize_idem [of "39 / 20"] by (simp add: quantize_1_95)
  then have s: "js_sub (Fin (8782019273372467 / 4503599627370496)) (Fin 0) = Fin (8782019273372467 / 4503599627370496)"
    unfolding js_sub_def by (simp add: rnd_small)
  have m: "js_mul (Fin (8782019273372467 / 4503599627370496)) (Fin 10) = Fin (39 / 2)"
    unfolding js_mul_def by (simp add: rnd_small quantize_1_95_times_10)
  have d: "js_div (Fin 20) (Fin 10) = Fin 2"
    unfolding js_div_def using rnd_int [of 2] by simp
  have "getDeltaIndicator64 (lit (39 / 20)) (Some (Fin 0)) =
      \<lparr>delta_text = ''2.0K'', delta_label = WASPADA,
       delta_note = ''Selisih besar. Bisa dipengaruhi batu permata, solder, rongga/berlubang, gelembung air, atau teknik penimbangan.''\<rparr>"
    by (simp add: getDeltaIndicator64_def l s m d Math_abs64_def Math_round64_def
        Math_round_def toFixed64_def print_defs)
  moreover have "Math_round (\<bar>8782019273372467 / 4503599627370496 - 0\<bar> * 10) / 10 = 19 / 10"
    by (simp add: Math_round_def)
  ultimately show ?thesis using l by simp
qed

text \<open>
  C8 as amended. With a density-based karat present, \<open>getDeltaIndicator\<close> takes the
  absolute value of the binary64 difference of the two karats, multiplies it by 10 in
  binary64, rounds to the nearest integer and divides by 10 in binary64; the label is
  WASPADA, the page's word for the warning, exactly when that number is at least 2, and
  OK otherwise; the text shows the number with one decimal. A difference of exactly 2
  gives WASPADA. With no density-based karat the label is OK and the text is empty.
\<close>

theorem getDeltaIndicator64_threshold:
  "(delta_label (getDeltaIndicator64 kp (Some kd)) = WASPADA) =
     js_ge (js_div (Math_round64 (js_mul (Math_abs64 (js_sub kp kd)) (Fin 10))) (Fin 10)) (Fin 2) \<and>
   (delta_label (getDeltaIndicator64 kp (Some kd)) = OK) =
     (\<not> js_ge (js_div (Math_round64 (js_mul (Math_abs64 (js_sub kp kd)) (Fin 10))) (Fin 10))
          (Fin 2)) \<and>
   delta_text (getDeltaIndicator64 kp (Some kd)) =
     toFixed64 (js_div (Math_round64 (js_mul (Math_abs64 (js_sub kp kd)) (Fin 10))) (Fin 10)) 1 @
     ''K'' \<and>
   (Math_abs64 (js_sub kp kd) = Fin 2 \<longrightarrow>
      delta_label (getDeltaIndicator64 kp (Some kd)) = WASPADA) \<and>
   delta_label (getDeltaIndicator64 kp None) = OK \<and>
   delta_text (getDeltaIndicator64 kp None) = ''''"
proof -
  have m: "js_mul (Fin 2) (Fin 10) = Fin 20"
    unfolding js_mul_def using rnd_int [of 20] by simp
  have d: "js_div (Fin 20) (Fin 10) = Fin 2"
    unfolding js_div_def using rnd_int [of 2] by simp
  have edge: "Math_abs64 (js_sub kp kd) = Fin 2 \<longrightarrow>
      delta_label (getDeltaIndicator64 kp (Some kd)) = WASPADA"
    by (simp add: getDeltaIndicator64_def Let_def m d Math_round64_def Math_round_def)
  show ?thesis
    using edge by (simp add: getDeltaIndicator64_def Let_def)
qed

theorem getDeltaIndicator64_threshold_witness:
  "Math_abs64 (js_sub (Fin 19) (Fin 17)) = Fin 2 \<and>
   delta_label (getDeltaIndicator64 (Fin 19) (Some (Fin 17))) = WASPADA"
proof -
  have h: "Math_abs64 (js_sub (Fin 19) (Fin 17)) = Fin 2"
    unfolding js_sub_def using rnd_int [of 2] by (simp add: Math_abs64_def)
  show ?thesis
    using h getDeltaIndicator64_threshold [of "Fin 19" "Fin 17"] by blast
qed

section \<open>Volume and density on binary64 numbers\<close>

lemma is_double_representable: "is_double x \<Longrightarrow> representable x"
  by (simp add: is_double_def representable_iff)

lemma representable_is_double: "representable x \<Longrightarrow> \<bar>x\<bar> < huge \<Longrightarrow> is_double x"
  by (simp add: is_double_def representable_iff)

lemma is_double_int: "\<bar>n\<bar> < 2 ^ 53 \<Longrightarrow> is_double (of_int n)"
proof -
  assume n: "\<bar>n\<bar> < 2 ^ 53"
  then have "\<bar>of_int n :: real\<bar> < 2 ^ 53"
    by (metis of_int_abs of_int_less_iff of_int_numeral of_int_power)
  then have "\<bar>of_int n :: real\<bar> < huge" by (intro huge_gt) simp
  then show ?thesis using n by (intro representable_is_double representable_int)
qed

lemma lit_0_9997: "lit (9997 / 10000) = Fin (4502248547482285 / 2 ^ 52)"
  unfolding lit_def by (subst rnd_small) (simp_all add: quantize_0_9997)

lemma lit_0_9957: "lit (9957 / 10000) = Fin (4484234148972803 / 2 ^ 52)"
  unfolding lit_def by (subst rnd_small) (simp_all add: quantize_0_9957)

lemma calc_waterDensity64_range:
  "\<exists>wv. calc_waterDensity64 temp = Fin wv \<and> 1 / 2 \<le> wv \<and> wv \<le> 1"
proof -
  consider "calc_waterDensity64 temp = Fin (4502248547482285 / 2 ^ 52)"
    | "calc_waterDensity64 temp = Fin (4484234148972803 / 2 ^ 52)"
    | "calc_waterDensity64 temp = Fin 1"
    by (cases "isNaN temp"; cases "js_lt temp (Fin 10)"; cases "js_gt temp (Fin 30)")
      (simp_all add: calc_waterDensity64_def lit_0_9997 lit_0_9957)
  then show ?thesis
  proof cases
    case 1
    then show ?thesis by (intro exI [of _ "4502248547482285 / 2 ^ 52"]) simp
  next
    case 2
    then show ?thesis by (intro exI [of _ "4484234148972803 / 2 ^ 52"]) simp
  next
    case 3
    then show ?thesis by (intro exI [of _ 1]) simp
  qed
qed

lemma quantize_half: "quantize (1 / 2) = 1 / 2"
  using representable_half [of 1] by (simp add: representable_quantize_id)

lemma calc_volume64_positive:
  assumes "is_double air" and "is_double water" and "0 < water" and "water < air"
  shows "calc_volume64 (Fin air) (Fin water) temp = PosInf \<or>
         (\<exists>v. calc_volume64 (Fin air) (Fin water) temp = Fin v \<and> 0 < v \<and> v \<le> air * 2)"
proof -
  define u where "u = quantize (air - water)"
  have ra: "representable air" and rw: "representable water"
    using assms(1,2) by (simp_all add: is_double_representable)
  have "2 powi (- 1074) \<le> air - water" using ra rw assms(4) by (rule representable_gap)
  then have u_lo: "2 powi (- 1074) \<le> u" unfolding u_def by (rule quantize_pos_grid)
  have "quantize (air - water) \<le> quantize air" using assms(3) by (intro quantize_mono) simp
  then have u_hi: "u \<le> air" using ra by (simp add: u_def representable_quantize_id)
  have u_pos: "0 < u" using u_lo p2_pos [of "- 1074"] by linarith
  have "\<bar>u\<bar> < huge" using u_hi u_pos assms(1) by (simp add: is_double_def)
  then have sub: "js_sub (Fin air) (Fin water) = Fin u"
    by (simp add: js_sub_def u_def rnd_Fin)
  obtain wv where wv: "calc_waterDensity64 temp = Fin wv" "1 / 2 \<le> wv" "wv \<le> 1"
    using calc_waterDensity64_range by blast
  define q where "q = quantize (u / wv)"
  have "u \<le> u / wv" using wv(2,3) u_pos by (simp add: le_divide_eq)
  then have "2 powi (- 1074) \<le> u / wv" using u_lo by linarith
  then have "2 powi (- 1074) \<le> q" unfolding q_def by (rule quantize_pos_grid)
  then have q_pos: "0 < q" using p2_pos [of "- 1074"] by linarith
  have "u / wv \<le> air * 2"
  proof -
    have "u / wv \<le> u / (1 / 2)" using wv(2) u_pos by (intro divide_left_mono) simp_all
    then show ?thesis using u_hi by simp
  qed
  then have "q \<le> quantize (air * 2)" unfolding q_def by (rule quantize_mono)
  then have q_hi: "q \<le> air * 2"
    using representable_double [OF ra] by (simp add: representable_quantize_id)
  have "calc_volume64 (Fin air) (Fin water) temp = rnd (u / wv)"
    using wv(1,2) by (simp add: calc_volume64_def sub js_div_def)
  moreover have "rnd (u / wv) = PosInf \<or> rnd (u / wv) = Fin q"
    using q_pos by (simp add: rnd_def Let_def q_def)
  ultimately show ?thesis using q_pos q_hi by auto
qed

lemma calc_density64_positive:
  assumes "is_double air" and "is_double water" and "0 < water" and "water < air"
  shows "(calc_volume64 (Fin air) (Fin water) temp = PosInf \<and>
          calc_density64 (Fin air) (Fin water) temp = Fin 0) \<or>
         (calc_volume64 (Fin air) (Fin water) temp \<noteq> PosInf \<and>
          js_gt (calc_density64 (Fin air) (Fin water) temp) (Fin 0))"
proof -
  consider "calc_volume64 (Fin air) (Fin water) temp = PosInf"
    | v where "calc_volume64 (Fin air) (Fin water) temp = Fin v" "0 < v" "v \<le> air * 2"
    using calc_volume64_positive [OF assms, of temp] by blast
  then show ?thesis
  proof cases
    case 1
    then show ?thesis by (simp add: calc_density64_def js_div_def)
  next
    case 2
    have air: "0 < air" using assms(3,4) by simp
    have "1 / 2 \<le> air / v" using 2(2,3) air by (simp add: le_divide_eq)
    then have "quantize (1 / 2) \<le> quantize (air / v)" by (rule quantize_mono)
    then have q: "0 < quantize (air / v)" by (simp add: quantize_half)
    have "calc_density64 (Fin air) (Fin water) temp = rnd (air / v)"
      using 2(1,2) by (simp add: calc_density64_def js_div_def)
    moreover have "rnd (air / v) = PosInf \<or> rnd (air / v) = Fin (quantize (air / v))"
      using q by (simp add: rnd_def Let_def)
    ultimately have "js_gt (calc_density64 (Fin air) (Fin water) temp) (Fin 0)"
      using q by (auto simp: js_gt_def js_lt_def)
    then show ?thesis using 2(1) by simp
  qed
qed

lemma calculatePurity64_valid:
  assumes "is_double air" and "is_double water" and "0 < water" and "water < air"
  shows "\<exists>res. calculatePurity64 (Fin air) (Fin water) temp = Inr res \<and>
          (karatFromDensity res, karatRangeDensity res) =
            scanTable64 (calc_density64 (Fin air) (Fin water) temp) conversionTable64"
proof -
  have "\<not> js_le (calc_volume64 (Fin air) (Fin water) temp) (Fin 0)"
    using calc_volume64_positive [OF assms, of temp] by (auto simp: js_le_def)
  then show ?thesis
    using assms(3,4)
    by (simp add: calculatePurity64_def Let_def isNaN_def split: prod.splits)
qed

text \<open>
  C9, the claim as it stands, fails: for the largest binary64 number as weight in air,
  1 as weight in water and water of 5 degrees the input passes validation, the division
  by 0.9997 overflows, the volume is \<open>Infinity\<close>, and the density is 0, not positive.
\<close>

theorem density_positive_counterexample:
  "is_double (2 ^ 1024 - 2 ^ 971) \<and> is_double 1 \<and> (0::real) < 1 \<and> (1::real) < 2 ^ 1024 - 2 ^ 971 \<and>
   calc_volume64 (Fin (2 ^ 1024 - 2 ^ 971)) (Fin 1) (Fin 5) = PosInf \<and>
   calc_density64 (Fin (2 ^ 1024 - 2 ^ 971)) (Fin 1) (Fin 5) = Fin 0 \<and>
   \<not> js_gt (calc_density64 (Fin (2 ^ 1024 - 2 ^ 971)) (Fin 1) (Fin 5)) (Fin 0)"
proof -
  define a :: real where "a = 2 ^ 1024 - 2 ^ 971"
  have a_rep: "quantize a = a"
    using quantize_exact [of a "2 ^ 53 - 1" 971] by (simp add: a_def)
  have a_lt: "\<bar>a\<bar> < huge" by (simp add: a_def huge_def)
  have da: "is_double a" using a_rep a_lt by (simp add: is_double_def)
  have d1: "is_double 1" using is_double_int [of 1] by simp
  have "quantize (a - 1) \<le> quantize a" by (intro quantize_mono) simp
  moreover have "quantize (a - 2 ^ 969) \<le> quantize (a - 1)" by (intro quantize_mono) simp
  moreover have "quantize (a - 2 ^ 969) = a"
    using quantize_at [of 1023 "a - 2 ^ 969" 971] by (simp add: a_def round_ne_def)
  ultimately have "quantize (a - 1) = a" using a_rep by simp
  then have sub: "js_sub (Fin a) (Fin 1) = Fin a"
    using a_lt by (simp add: js_sub_def rnd_Fin)
  have wd: "calc_waterDensity64 (Fin 5) = Fin (4502248547482285 / 2 ^ 52)"
    by (simp add: calc_waterDensity64_def isNaN_def lit_0_9997)
  have "representable huge"
    unfolding representable_def huge_def by (intro exI [of _ 1] exI [of _ "1024::int"]) simp
  then have "quantize huge = huge" by (rule representable_quantize_id)
  moreover have "huge \<le> a / (4502248547482285 / 2 ^ 52)" by (simp add: a_def huge_def)
  ultimately have "huge \<le> quantize (a / (4502248547482285 / 2 ^ 52))"
    using quantize_mono [of huge "a / (4502248547482285 / 2 ^ 52)"] by simp
  then have "rnd (a / (4502248547482285 / 2 ^ 52)) = PosInf" by (simp add: rnd_def)
  then have vol: "calc_volume64 (Fin a) (Fin 1) (Fin 5) = PosInf"
    by (simp add: calc_volume64_def sub wd js_div_def)
  then have den: "calc_density64 (Fin a) (Fin 1) (Fin 5) = Fin 0"
    by (simp add: calc_density64_def js_div_def)
  have "(1::real) < a" by (simp add: a_def)
  then show ?thesis
    using da d1 vol den unfolding a_def by simp
qed

text \<open>
  C9 as amended. For binary64 weights that pass validation (both positive, the weight in
  air above the weight in water) the volume, the binary64 quotient of the binary64
  difference of the weights by the water density, is positive, finite or \<open>Infinity\<close>;
  so the calculation returns a result, never the error for a volume of at most 0. The
  density, the binary64 quotient of the weight in air by the volume, is positive when
  the volume is finite, and 0 when the volume is \<open>Infinity\<close>.
\<close>

theorem valid_input_positive_volume64:
  assumes "is_double air" and "is_double water" and "0 < water" and "water < air"
  shows "js_gt (calc_volume64 (Fin air) (Fin water) temp) (Fin 0) \<and>
         calc_volume64 (Fin air) (Fin water) temp =
           js_div (js_sub (Fin air) (Fin water)) (calc_waterDensity64 temp) \<and>
         calc_density64 (Fin air) (Fin water) temp =
           js_div (Fin air) (calc_volume64 (Fin air) (Fin water) temp) \<and>
         (calc_volume64 (Fin air) (Fin water) temp \<noteq> PosInf \<longrightarrow>
            js_gt (calc_density64 (Fin air) (Fin water) temp) (Fin 0)) \<and>
         (calc_volume64 (Fin air) (Fin water) temp = PosInf \<longrightarrow>
            calc_density64 (Fin air) (Fin water) temp = Fin 0) \<and>
         (\<exists>res. calculatePurity64 (Fin air) (Fin water) temp = Inr res) \<and>
         calculatePurity64 (Fin air) (Fin water) temp \<noteq> Inl InvalidVolumeError"
proof -
  have vol: "js_gt (calc_volume64 (Fin air) (Fin water) temp) (Fin 0)"
    using calc_volume64_positive [OF assms, of temp] by (auto simp: js_gt_def js_lt_def)
  have run: "\<exists>res. calculatePurity64 (Fin air) (Fin water) temp = Inr res"
    using calculatePurity64_valid [OF assms, of temp] by blast
  then have "calculatePurity64 (Fin air) (Fin water) temp \<noteq> Inl InvalidVolumeError"
    by auto
  then show ?thesis
    using vol run calc_density64_positive [OF assms, of temp]
    by (auto simp: calc_volume64_def calc_density64_def)
qed

theorem valid_input_positive_volume64_witness:
  "is_double 5 \<and> is_double 4 \<and> (0::real) < 4 \<and> (4::real) < 5 \<and>
   js_gt (calc_volume64 (Fin 5) (Fin 4) (Fin 20)) (Fin 0) \<and>
   calc_volume64 (Fin 5) (Fin 4) (Fin 20) \<noteq> PosInf \<and>
   js_gt (calc_density64 (Fin 5) (Fin 4) (Fin 20)) (Fin 0) \<and>
   (\<exists>res. calculatePurity64 (Fin 5) (Fin 4) (Fin 20) = Inr res)"
proof -
  have h1: "is_double 5" and h2: "is_double 4"
    using is_double_int [of 5] is_double_int [of 4] by simp_all
  have h3: "(0::real) < 4" and h4: "(4::real) < 5" by simp_all
  have "js_sub (Fin 5) (Fin 4) = Fin 1"
    unfolding js_sub_def using rnd_int [of 1] by simp
  moreover have "calc_waterDensity64 (Fin 20) = Fin 1"
    by (simp add: calc_waterDensity64_def isNaN_def)
  moreover have "js_div (Fin 1) (Fin 1) = Fin 1"
    unfolding js_div_def using rnd_int [of 1] by simp
  ultimately have v: "calc_volume64 (Fin 5) (Fin 4) (Fin 20) = Fin 1"
    by (simp add: calc_volume64_def)
  then have "calc_volume64 (Fin 5) (Fin 4) (Fin 20) \<noteq> PosInf" by simp
  then show ?thesis
    using h1 h2 h3 h4 valid_input_positive_volume64 [OF h1 h2 h3 h4, of "Fin 20"] by blast
qed

section \<open>The table lookup on binary64 numbers\<close>

lemma table64_rows:
  "conversionTable64 =
     [\<lparr>karat = ''24K'', percent = quantize (999 / 10), minDensity = 5404319552844595 / 2 ^ 48,
       maxDensity = 2719048275024937 / 2 ^ 47\<rparr>,
      \<lparr>karat = ''23K'', percent = quantize (479 / 5), minDensity = 2617717283409101 / 2 ^ 47,
       maxDensity = 5404319552844595 / 2 ^ 48\<rparr>,
      \<lparr>karat = ''22K'', percent = quantize (917 / 10), minDensity = 4982107087778611 / 2 ^ 48,
       maxDensity = 2617717283409101 / 2 ^ 47\<rparr>,
      \<lparr>karat = ''21K'', percent = quantize (175 / 2), minDensity = 2378463553205043 / 2 ^ 47,
       maxDensity = 4982107087778611 / 2 ^ 48\<rparr>,
      \<lparr>karat = ''20K'', percent = quantize (833 / 10), minDensity = 4559894622712627 / 2 ^ 48,
       maxDensity = 2378463553205043 / 2 ^ 47\<rparr>,
      \<lparr>karat = ''19K'', percent = quantize (396 / 5), minDensity = 8782019273372467 / 2 ^ 49,
       maxDensity = 4559894622712627 / 2 ^ 48\<rparr>,
      \<lparr>karat = ''18K'', percent = quantize (75), minDensity = 4278419646001971 / 2 ^ 48,
       maxDensity = 8782019273372467 / 2 ^ 49\<rparr>,
      \<lparr>karat = ''17K'', percent = quantize (354 / 5), minDensity = 4137682157646643 / 2 ^ 48,
       maxDensity = 4278419646001971 / 2 ^ 48\<rparr>,
      \<lparr>karat = ''16K'', percent = quantize (667 / 10), minDensity = 3996944669291315 / 2 ^ 48,
       maxDensity = 4137682157646643 / 2 ^ 48\<rparr>,
      \<lparr>karat = ''15K'', percent = quantize (125 / 2), minDensity = 3856207180935987 / 2 ^ 48,
       maxDensity = 3996944669291315 / 2 ^ 48\<rparr>,
      \<lparr>karat = ''14K'', percent = quantize (583 / 10), minDensity = 13,
       maxDensity = 3856207180935987 / 2 ^ 48\<rparr>,
      \<lparr>karat = ''13K'', percent = quantize (271 / 5), minDensity = 7093169413108531 / 2 ^ 49,
       maxDensity = 13\<rparr>,
      \<lparr>karat = ''12K'', percent = quantize (50), minDensity = 12,
       maxDensity = 7093169413108531 / 2 ^ 49\<rparr>,
      \<lparr>karat = ''11K'', percent = quantize (229 / 5), minDensity = 6530219459687219 / 2 ^ 49,
       maxDensity = 12\<rparr>,
      \<lparr>karat = ''10K'', percent = quantize (417 / 10), minDensity = 3180667236830413 / 2 ^ 48,
       maxDensity = 6530219459687219 / 2 ^ 49\<rparr>,
      \<lparr>karat = ''9K'', percent = quantize (75 / 2), minDensity = 6136154492292301 / 2 ^ 49,
       maxDensity = 3180667236830413 / 2 ^ 48\<rparr>,
      \<lparr>karat = ''8K'', percent = quantize (333 / 10), minDensity = 21 / 2 ^ 1,
       maxDensity = 6136154492292301 / 2 ^ 49\<rparr>,
      \<lparr>karat = ''7K'', percent = quantize (146 / 5), minDensity = 5685794529555251 / 2 ^ 49,
       maxDensity = 21 / 2 ^ 1\<rparr>,
      \<lparr>karat = ''6K'', percent = quantize (25), minDensity = 2730307274093363 / 2 ^ 48,
       maxDensity = 5685794529555251 / 2 ^ 49\<rparr>]"
  by (simp add: conversionTable64_def conversionTable_def literal_values)

lemma quantize_p177_air: "quantize (177 / 100) = 3985685670222889 / 2 ^ 51"
  using quantize_at [of "0" "177 / 100" "- 52"] by (simp add: round_ne_def)

lemma quantize_p177_water: "quantize (167 / 100) = 940126422213591 / 2 ^ 49"
  using quantize_at [of "0" "167 / 100" "- 52"] by (simp add: round_ne_def)

lemma quantize_p177_diff: "quantize (225179981368525 / 2251799813685248) = 225179981368525 / 2 ^ 51"
  using quantize_at [of "- 4" "225179981368525 / 2251799813685248" "- 56"] by (simp add: round_ne_def)

lemma quantize_p177_density: "quantize (3985685670222889 / 225179981368525) = 4982107087778607 / 2 ^ 48"
  using quantize_at [of "4" "3985685670222889 / 225179981368525" "- 48"] by (simp add: round_ne_def)

lemma lits_p177:
  "lit (177 / 100) = Fin (3985685670222889 / 2251799813685248)" "lit (167 / 100) = Fin (940126422213591 / 562949953421312)"
  unfolding lit_def by (simp_all add: rnd_small quantize_p177_air quantize_p177_water)

lemma density_p177:
  "calc_density64 (Fin (3985685670222889 / 2251799813685248)) (Fin (940126422213591 / 562949953421312)) (Fin 20) = Fin (4982107087778607 / 281474976710656)"
proof -
  have s: "js_sub (Fin (3985685670222889 / 2251799813685248)) (Fin (940126422213591 / 562949953421312)) = Fin (225179981368525 / 2251799813685248)"
    by (simp add: js_sub_def rnd_small quantize_p177_diff)
  have t: "calc_waterDensity64 (Fin 20) = Fin 1"
    by (simp add: calc_waterDensity64_def isNaN_def)
  have "quantize (225179981368525 / 2251799813685248) = 225179981368525 / 2251799813685248"
    using quantize_idem [of "225179981368525 / 2251799813685248"] by (simp add: quantize_p177_diff)
  then have v: "js_div (Fin (225179981368525 / 2251799813685248)) (Fin 1) = Fin (225179981368525 / 2251799813685248)"
    by (simp add: js_div_def rnd_small)
  have d: "js_div (Fin (3985685670222889 / 2251799813685248)) (Fin (225179981368525 / 2251799813685248)) = Fin (4982107087778607 / 281474976710656)"
    by (simp add: js_div_def rnd_small quantize_p177_density)
  show ?thesis
    by (simp add: calc_density64_def calc_volume64_def s t v d)
qed

lemma density_lit_p177:
  "calc_density64 (lit (177 / 100)) (lit (167 / 100)) (Fin 20) = Fin (4982107087778607 / 281474976710656)"
  by (simp add: lits_p177 density_p177)

lemma quantize_p885_air: "quantize (177 / 20) = 4982107087778611 / 2 ^ 49"
  using quantize_at [of "3" "177 / 20" "- 49"] by (simp add: round_ne_def)

lemma quantize_p885_water: "quantize (167 / 20) = 4700632111067955 / 2 ^ 49"
  using quantize_at [of "3" "167 / 20" "- 49"] by (simp add: round_ne_def)

lemma quantize_p885_diff: "quantize (1 / 2) = 1 / 2 ^ 1"
  using quantize_at [of "- 1" "1 / 2" "- 53"] by (simp add: round_ne_def)

lemma quantize_p885_density: "quantize (4982107087778611 / 281474976710656) = 4982107087778611 / 2 ^ 48"
  using quantize_at [of "4" "4982107087778611 / 281474976710656" "- 48"] by (simp add: round_ne_def)

lemma lits_p885:
  "lit (177 / 20) = Fin (4982107087778611 / 562949953421312)" "lit (167 / 20) = Fin (4700632111067955 / 562949953421312)"
  unfolding lit_def by (simp_all add: rnd_small quantize_p885_air quantize_p885_water)

lemma density_p885:
  "calc_density64 (Fin (4982107087778611 / 562949953421312)) (Fin (4700632111067955 / 562949953421312)) (Fin 20) = Fin (4982107087778611 / 281474976710656)"
proof -
  have s: "js_sub (Fin (4982107087778611 / 562949953421312)) (Fin (4700632111067955 / 562949953421312)) = Fin (1 / 2)"
    by (simp add: js_sub_def rnd_small quantize_p885_diff)
  have t: "calc_waterDensity64 (Fin 20) = Fin 1"
    by (simp add: calc_waterDensity64_def isNaN_def)
  have "quantize (1 / 2) = 1 / 2"
    using quantize_idem [of "1 / 2"] by (simp add: quantize_p885_diff)
  then have v: "js_div (Fin (1 / 2)) (Fin 1) = Fin (1 / 2)"
    by (simp add: js_div_def rnd_small)
  have d: "js_div (Fin (4982107087778611 / 562949953421312)) (Fin (1 / 2)) = Fin (4982107087778611 / 281474976710656)"
    by (simp add: js_div_def rnd_small quantize_p885_density)
  show ?thesis
    by (simp add: calc_density64_def calc_volume64_def s t v d)
qed

lemma density_lit_p885:
  "calc_density64 (lit (177 / 20)) (lit (167 / 20)) (Fin 20) = Fin (4982107087778611 / 281474976710656)"
  by (simp add: lits_p885 density_p885)

lemma quantize_p291_air: "quantize (291 / 100) = 819092182228009 / 2 ^ 48"
  using quantize_at [of "1" "291 / 100" "- 51"] by (simp add: round_ne_def)

lemma quantize_p291_water: "quantize (261 / 100) = 5877197513718497 / 2 ^ 51"
  using quantize_at [of "1" "261 / 100" "- 51"] by (simp add: round_ne_def)

lemma quantize_p291_diff: "quantize (675539944105575 / 2251799813685248) = 675539944105575 / 2 ^ 51"
  using quantize_at [of "- 2" "675539944105575 / 2251799813685248" "- 54"] by (simp add: round_ne_def)

lemma quantize_p291_density: "quantize (6552737457824072 / 675539944105575) = 2730307274093361 / 2 ^ 48"
  using quantize_at [of "3" "6552737457824072 / 675539944105575" "- 49"] by (simp add: round_ne_def)

lemma lits_p291:
  "lit (291 / 100) = Fin (819092182228009 / 281474976710656)" "lit (261 / 100) = Fin (5877197513718497 / 2251799813685248)"
  unfolding lit_def by (simp_all add: rnd_small quantize_p291_air quantize_p291_water)

lemma density_p291:
  "calc_density64 (Fin (819092182228009 / 281474976710656)) (Fin (5877197513718497 / 2251799813685248)) (Fin 20) = Fin (2730307274093361 / 281474976710656)"
proof -
  have s: "js_sub (Fin (819092182228009 / 281474976710656)) (Fin (5877197513718497 / 2251799813685248)) = Fin (675539944105575 / 2251799813685248)"
    by (simp add: js_sub_def rnd_small quantize_p291_diff)
  have t: "calc_waterDensity64 (Fin 20) = Fin 1"
    by (simp add: calc_waterDensity64_def isNaN_def)
  have "quantize (675539944105575 / 2251799813685248) = 675539944105575 / 2251799813685248"
    using quantize_idem [of "675539944105575 / 2251799813685248"] by (simp add: quantize_p291_diff)
  then have v: "js_div (Fin (675539944105575 / 2251799813685248)) (Fin 1) = Fin (675539944105575 / 2251799813685248)"
    by (simp add: js_div_def rnd_small)
  have d: "js_div (Fin (819092182228009 / 281474976710656)) (Fin (675539944105575 / 2251799813685248)) = Fin (2730307274093361 / 281474976710656)"
    by (simp add: js_div_def rnd_small quantize_p291_density)
  show ?thesis
    by (simp add: calc_density64_def calc_volume64_def s t v d)
qed

lemma density_lit_p291:
  "calc_density64 (lit (291 / 100)) (lit (261 / 100)) (Fin 20) = Fin (2730307274093361 / 281474976710656)"
  by (simp add: lits_p291 density_p291)

lemma quantize_p485_air: "quantize (97 / 20) = 2730307274093363 / 2 ^ 49"
  using quantize_at [of "2" "97 / 20" "- 50"] by (simp add: round_ne_def)

lemma quantize_p485_water: "quantize (87 / 20) = 2448832297382707 / 2 ^ 49"
  using quantize_at [of "2" "87 / 20" "- 50"] by (simp add: round_ne_def)

lemma quantize_p485_diff: "quantize (1 / 2) = 1 / 2 ^ 1"
  using quantize_at [of "- 1" "1 / 2" "- 53"] by (simp add: round_ne_def)

lemma quantize_p485_density: "quantize (2730307274093363 / 281474976710656) = 2730307274093363 / 2 ^ 48"
  using quantize_at [of "3" "2730307274093363 / 281474976710656" "- 49"] by (simp add: round_ne_def)

lemma lits_p485:
  "lit (97 / 20) = Fin (2730307274093363 / 562949953421312)" "lit (87 / 20) = Fin (2448832297382707 / 562949953421312)"
  unfolding lit_def by (simp_all add: rnd_small quantize_p485_air quantize_p485_water)

lemma density_p485:
  "calc_density64 (Fin (2730307274093363 / 562949953421312)) (Fin (2448832297382707 / 562949953421312)) (Fin 20) = Fin (2730307274093363 / 281474976710656)"
proof -
  have s: "js_sub (Fin (2730307274093363 / 562949953421312)) (Fin (2448832297382707 / 562949953421312)) = Fin (1 / 2)"
    by (simp add: js_sub_def rnd_small quantize_p485_diff)
  have t: "calc_waterDensity64 (Fin 20) = Fin 1"
    by (simp add: calc_waterDensity64_def isNaN_def)
  have "quantize (1 / 2) = 1 / 2"
    using quantize_idem [of "1 / 2"] by (simp add: quantize_p485_diff)
  then have v: "js_div (Fin (1 / 2)) (Fin 1) = Fin (1 / 2)"
    by (simp add: js_div_def rnd_small)
  have d: "js_div (Fin (2730307274093363 / 562949953421312)) (Fin (1 / 2)) = Fin (2730307274093363 / 281474976710656)"
    by (simp add: js_div_def rnd_small quantize_p485_density)
  show ?thesis
    by (simp add: calc_density64_def calc_volume64_def s t v d)
qed

lemma density_lit_p485:
  "calc_density64 (lit (97 / 20)) (lit (87 / 20)) (Fin 20) = Fin (2730307274093363 / 281474976710656)"
  by (simp add: lits_p485 density_p485)

lemma quantize_p483_air: "quantize (483 / 100) = 2719048275024937 / 2 ^ 49"
  using quantize_at [of "2" "483 / 100" "- 50"] by (simp add: round_ne_def)

lemma quantize_p483_water: "quantize (229 / 50) = 2578310786669609 / 2 ^ 49"
  using quantize_at [of "2" "229 / 50" "- 50"] by (simp add: round_ne_def)

lemma quantize_p483_diff: "quantize (1 / 4) = 1 / 2 ^ 2"
  using quantize_at [of "- 2" "1 / 4" "- 54"] by (simp add: round_ne_def)

lemma quantize_p483_density: "quantize (2719048275024937 / 140737488355328) = 2719048275024937 / 2 ^ 47"
  using quantize_at [of "4" "2719048275024937 / 140737488355328" "- 48"] by (simp add: round_ne_def)

lemma lits_p483:
  "lit (483 / 100) = Fin (2719048275024937 / 562949953421312)" "lit (229 / 50) = Fin (2578310786669609 / 562949953421312)"
  unfolding lit_def by (simp_all add: rnd_small quantize_p483_air quantize_p483_water)

lemma density_p483:
  "calc_density64 (Fin (2719048275024937 / 562949953421312)) (Fin (2578310786669609 / 562949953421312)) (Fin 20) = Fin (2719048275024937 / 140737488355328)"
proof -
  have s: "js_sub (Fin (2719048275024937 / 562949953421312)) (Fin (2578310786669609 / 562949953421312)) = Fin (1 / 4)"
    by (simp add: js_sub_def rnd_small quantize_p483_diff)
  have t: "calc_waterDensity64 (Fin 20) = Fin 1"
    by (simp add: calc_waterDensity64_def isNaN_def)
  have "quantize (1 / 4) = 1 / 4"
    using quantize_idem [of "1 / 4"] by (simp add: quantize_p483_diff)
  then have v: "js_div (Fin (1 / 4)) (Fin 1) = Fin (1 / 4)"
    by (simp add: js_div_def rnd_small)
  have d: "js_div (Fin (2719048275024937 / 562949953421312)) (Fin (1 / 4)) = Fin (2719048275024937 / 140737488355328)"
    by (simp add: js_div_def rnd_small quantize_p483_density)
  show ?thesis
    by (simp add: calc_density64_def calc_volume64_def s t v d)
qed

lemma density_lit_p483:
  "calc_density64 (lit (483 / 100)) (lit (229 / 50)) (Fin 20) = Fin (2719048275024937 / 140737488355328)"
  by (simp add: lits_p483 density_p483)

lemma inBand64_Fin: "inBand64 (Fin x) row = inBand x row"
  by (auto simp: inBand64_def inBand_def)

lemma inBand64_fun:
  "inBand64 d = (\<lambda>row. js_ge d (Fin (minDensity row)) \<and> js_le d (Fin (maxDensity row)))"
  by (simp add: inBand64_def fun_eq_iff)

lemma scanTable64_Fin: "scanTable64 (Fin x) t = scanTable x t"
  by (induction t) (simp_all add: inBand64_Fin)

lemma find_inBand64_Fin: "find (inBand64 (Fin x)) t = find (inBand x) t"
  by (induction t) (simp_all add: inBand64_Fin)

lemma scanTable64_find:
  "scanTable64 d t =
     (case find (inBand64 d) t of
        None \<Rightarrow> (''?'', '''')
      | Some row \<Rightarrow>
          (karat row,
           toFixed (minDensity row) 2 @ '' - '' @ toFixed (maxDensity row) 2 @ '' g/cm'' @
             superscript_three))"
  by (induction t) simp_all

lemma scanTable64_not_finite:
  "scanTable64 NaN t = (''?'', '''') \<and> scanTable64 PosInf t = (''?'', '''') \<and>
   scanTable64 NegInf t = (''?'', '''')"
  by (induction t) (simp_all add: inBand64_def js_ge_def js_le_def)

lemma table64_labels:
  "map karat conversionTable64 =
     [''24K'', ''23K'', ''22K'', ''21K'', ''20K'', ''19K'', ''18K'', ''17K'', ''16K'', ''15K'',
      ''14K'', ''13K'', ''12K'', ''11K'', ''10K'', ''9K'', ''8K'', ''7K'', ''6K'']"
  by (simp add: conversionTable64_def conversionTable_def)

lemma table64_length: "length conversionTable64 = 19"
  by (simp add: conversionTable64_def conversionTable_def)

lemma table64_contiguous:
  "map maxDensity (tl conversionTable64) = map minDensity (butlast conversionTable64)"
  by (simp add: conversionTable64_def conversionTable_def)



lemma table64_chained: "chained conversionTable64"
  by (simp add: table64_rows)

lemma lit_9_70: "lit (97 / 10) = Fin (2730307274093363 / 2 ^ 48)"
  unfolding lit_def by (subst rnd_small) (simp_all add: quantize_9_70)

lemma lit_19_32: "lit (483 / 25) = Fin (2719048275024937 / 2 ^ 47)"
  unfolding lit_def by (subst rnd_small) (simp_all add: quantize_19_32)

lemma table64_covers:
  "(find (inBand x) conversionTable64 = None) =
   (x < 2730307274093363 / 2 ^ 48 \<or> 2719048275024937 / 2 ^ 47 < x)"
  using chained_find_None [OF table64_chained, of x] by (simp add: table64_rows)

lemma parseKaratLabel64_rnd: "parseKaratLabel64 s = map_option rnd (parseKaratLabel s)"
  by (simp add: parseKaratLabel64_def parseKaratLabel_def split: option.splits)

lemma table64_values:
  "map (\<lambda>row. parseKaratLabel64 (karat row)) conversionTable64 =
     [Some (Fin 24), Some (Fin 23), Some (Fin 22), Some (Fin 21), Some (Fin 20), Some (Fin 19),
      Some (Fin 18), Some (Fin 17), Some (Fin 16), Some (Fin 15), Some (Fin 14), Some (Fin 13),
      Some (Fin 12), Some (Fin 11), Some (Fin 10), Some (Fin 9), Some (Fin 8), Some (Fin 7),
      Some (Fin 6)]"
proof -
  have r: "rnd (numeral n) = Fin (numeral n)" if "numeral n < (2 ^ 53 :: int)" for n
    using rnd_int [of "numeral n"] that by simp
  have "map (\<lambda>row. parseKaratLabel64 (karat row)) conversionTable64 =
      map (map_option rnd) (map parseKaratLabel (map karat conversionTable64))"
    by (simp add: parseKaratLabel64_rnd comp_def)
  then show ?thesis
    unfolding table64_labels label_values by (simp add: r)
qed

lemma table64_row_parses:
  assumes "row \<in> set conversionTable64"
  shows "parseKaratLabel64 (karat row) \<noteq> None \<and> karat row \<noteq> ''?''"
proof -
  have "parseKaratLabel64 (karat row) \<in>
      set (map (\<lambda>row. parseKaratLabel64 (karat row)) conversionTable64)"
    using assms by simp
  then have "parseKaratLabel64 (karat row) \<noteq> None"
    unfolding table64_values by auto
  moreover have "parseKaratLabel64 ''?'' = None"
    by (simp add: parseKaratLabel64_rnd parse_question_mark)
  ultimately show ?thesis by auto
qed

lemma scanTable64_unmatched:
  "(fst (scanTable64 d conversionTable64) = ''?'') = (find (inBand64 d) conversionTable64 = None) \<and>
   (parseKaratLabel64 (fst (scanTable64 d conversionTable64)) = None) =
     (find (inBand64 d) conversionTable64 = None)"
proof (cases "find (inBand64 d) conversionTable64")
  case None
  then show ?thesis
    by (simp add: scanTable64_find parseKaratLabel64_rnd parse_question_mark)
next
  case (Some row)
  then have "row \<in> set conversionTable64" by (simp add: find_in_set)
  then have "parseKaratLabel64 (karat row) \<noteq> None \<and> karat row \<noteq> ''?''"
    by (rule table64_row_parses)
  then show ?thesis using Some by (simp add: scanTable64_find)
qed

text \<open>
  The page at five inputs, the water at 20 degrees: the typed weights, read as binary64
  numbers, the density that it computes, and the row that it finds.
\<close>

lemma lookup_p177:
  "fst (scanTable64 (calc_density64 (lit (177 / 100)) (lit (167 / 100)) (Fin 20))
     conversionTable64) = ''21K''"
  by (simp add: density_lit_p177 table64_rows inBand64_Fin inBand_def)

lemma lookup_p885:
  "fst (scanTable64 (calc_density64 (lit (177 / 20)) (lit (167 / 20)) (Fin 20))
     conversionTable64) = ''22K''"
  by (simp add: density_lit_p885 table64_rows inBand64_Fin inBand_def)

lemma lookup_p291:
  "fst (scanTable64 (calc_density64 (lit (291 / 100)) (lit (261 / 100)) (Fin 20))
     conversionTable64) = ''?''"
  by (simp add: density_lit_p291 table64_rows inBand64_Fin inBand_def)

lemma lookup_p485:
  "fst (scanTable64 (calc_density64 (lit (97 / 20)) (lit (87 / 20)) (Fin 20))
     conversionTable64) = ''6K''"
  by (simp add: density_lit_p485 table64_rows inBand64_Fin inBand_def)

lemma lookup_p483:
  "fst (scanTable64 (calc_density64 (lit (483 / 100)) (lit (229 / 50)) (Fin 20))
     conversionTable64) = ''24K''"
  by (simp add: density_lit_p483 table64_rows inBand64_Fin inBand_def)



text \<open>
  C10, the claim read with the decimal numbers 9.70 and 19.32, fails: the binary64
  number of the literal 9.7 lies below 9.70, and the lookup finds the row 6K for it;
  the page computes this density from the weights 4.85 and 4.35. And for the weights
  2.91 and 2.61, whose exact quotient is 9.70, the page computes a density below that
  binary64 number and finds no row.
\<close>

theorem table_decimal_bounds_counterexample:
  "(2730307274093363 / 2 ^ 48 :: real) < 9.70 \<and>
   fst (scanTable64 (Fin (2730307274093363 / 2 ^ 48)) conversionTable64) = ''6K'' \<and>
   (fst (scanTable64 (Fin (2730307274093363 / 2 ^ 48)) conversionTable64) = ''?'') \<noteq>
     ((2730307274093363 / 2 ^ 48 :: real) < 9.70 \<or> 19.32 < (2730307274093363 / 2 ^ 48 :: real)) \<and>
   calc_density64 (lit (97 / 20)) (lit (87 / 20)) (Fin 20) = Fin (2730307274093363 / 2 ^ 48) \<and>
   (291 / 100) / (291 / 100 - 261 / 100) = (9.70 :: real) \<and>
   fst (scanTable64 (calc_density64 (lit (291 / 100)) (lit (261 / 100)) (Fin 20))
     conversionTable64) = ''?''"
proof -
  have "fst (scanTable64 (Fin (2730307274093363 / 2 ^ 48)) conversionTable64) = ''6K''"
    by (simp add: table64_rows inBand64_Fin inBand_def)
  moreover have "calc_density64 (lit (97 / 20)) (lit (87 / 20)) (Fin 20) =
      Fin (2730307274093363 / 2 ^ 48)"
    by (simp add: density_lit_p485)
  ultimately show ?thesis
    using lookup_p291 by simp
qed

text \<open>
  C10 as amended. The 19 rows are contiguous: each row's upper bound is the lower bound
  of the row before it. So the lookup finds a row for every finite density from the
  binary64 number of 9.70 to that of 19.32, and gives "?" exactly when the density is
  below the first or above the second; it gives "?" too for a density that is not
  finite. The labels of the rows parse to the whole numbers 24 down to 6, so the number
  made of the lookup's label is absent exactly when no row matched.
\<close>

theorem table64_contiguous_and_parsed:
  "length conversionTable64 = 19 \<and>
   map maxDensity (tl conversionTable64) = map minDensity (butlast conversionTable64) \<and>
   lit 9.70 = Fin (2730307274093363 / 2 ^ 48) \<and>
   lit 19.32 = Fin (2719048275024937 / 2 ^ 47) \<and>
   minDensity (last conversionTable64) = 2730307274093363 / 2 ^ 48 \<and>
   maxDensity (hd conversionTable64) = 2719048275024937 / 2 ^ 47 \<and>
   (find (\<lambda>row. js_ge (Fin x) (Fin (minDensity row)) \<and> js_le (Fin x) (Fin (maxDensity row)))
      conversionTable64 = None) =
     (js_lt (Fin x) (lit 9.70) \<or> js_gt (Fin x) (lit 19.32)) \<and>
   (fst (scanTable64 (Fin x) conversionTable64) = ''?'') =
     (js_lt (Fin x) (lit 9.70) \<or> js_gt (Fin x) (lit 19.32)) \<and>
   scanTable64 NaN conversionTable64 = (''?'', '''') \<and>
   scanTable64 PosInf conversionTable64 = (''?'', '''') \<and>
   scanTable64 NegInf conversionTable64 = (''?'', '''') \<and>
   map (\<lambda>row. parseKaratLabel64 (karat row)) conversionTable64 =
     [Some (Fin 24), Some (Fin 23), Some (Fin 22), Some (Fin 21), Some (Fin 20), Some (Fin 19),
      Some (Fin 18), Some (Fin 17), Some (Fin 16), Some (Fin 15), Some (Fin 14), Some (Fin 13),
      Some (Fin 12), Some (Fin 11), Some (Fin 10), Some (Fin 9), Some (Fin 8), Some (Fin 7),
      Some (Fin 6)] \<and>
   (parseKaratLabel64 (fst (scanTable64 d conversionTable64)) = None) =
     (find (\<lambda>row. js_ge d (Fin (minDensity row)) \<and> js_le d (Fin (maxDensity row)))
        conversionTable64 = None)"
proof -
  have l1: "lit 9.70 = Fin (2730307274093363 / 2 ^ 48)" using lit_9_70 by simp
  have l2: "lit 19.32 = Fin (2719048275024937 / 2 ^ 47)" using lit_19_32 by simp
  have ends: "minDensity (last conversionTable64) = 2730307274093363 / 2 ^ 48"
    "maxDensity (hd conversionTable64) = 2719048275024937 / 2 ^ 47"
    by (simp_all add: table64_rows)
  have covers: "(find (inBand64 (Fin x)) conversionTable64 = None) =
      (js_lt (Fin x) (lit 9.70) \<or> js_gt (Fin x) (lit 19.32))"
    unfolding l1 l2 find_inBand64_Fin table64_covers by simp
  have mark: "(fst (scanTable64 (Fin x) conversionTable64) = ''?'') =
      (js_lt (Fin x) (lit 9.70) \<or> js_gt (Fin x) (lit 19.32))"
    using scanTable64_unmatched [of "Fin x"] covers by simp
  have absent: "(parseKaratLabel64 (fst (scanTable64 d conversionTable64)) = None) =
      (find (inBand64 d) conversionTable64 = None)"
    using scanTable64_unmatched [of d] by simp
  show ?thesis
    using table64_length table64_contiguous l1 l2 ends covers mark absent table64_values
      scanTable64_not_finite [of conversionTable64]
    unfolding inBand64_fun by blast
qed

end
